theory Spec2Isabelle
  imports Main "HOL-Library.AList"
begin

section \<open>Python values used by the call-log parser\<close>

text \<open>
  A Python \<open>str\<close> is a sequence of Unicode code points, so a string is modelled as a
  list of code points (natural numbers), not of bytes. \<open>str\<close> turns an ASCII literal
  into such a string.
\<close>

type_synonym pychar = nat
type_synonym pystr = "nat list"

definition str :: "string \<Rightarrow> pystr" where
  "str s = map of_char s"

definition PIPE :: pychar where
  "PIPE = 124"

definition COLON :: pychar where
  "COLON = 58"

text \<open>
  The exceptions the modelled code can meet. An operation that raises returns \<open>Inl\<close>;
  a \<open>try ... except Exception\<close> block is the case distinction that maps \<open>Inl\<close> to the
  handler's result.
\<close>

datatype exn = IndexError | ValueError | OSError

text \<open>
  \<open>ch.isspace()\<close>: the code points Python treats as whitespace, which are the ones
  \<open>str.strip()\<close> removes.
\<close>

definition isspace :: "pychar \<Rightarrow> bool" where
  "isspace c = ((9 \<le> c \<and> c \<le> 13) \<or> (28 \<le> c \<and> c \<le> 32) \<or> c = 133 \<or> c = 160
     \<or> c = 5760 \<or> (8192 \<le> c \<and> c \<le> 8202) \<or> c = 8232 \<or> c = 8233 \<or> c = 8239
     \<or> c = 8287 \<or> c = 12288)"

text \<open>\<open>s.strip()\<close>: leading and trailing whitespace removed.\<close>

definition strip :: "pystr \<Rightarrow> pystr" where
  "strip s = rev (dropWhile isspace (rev (dropWhile isspace s)))"

text \<open>
  \<open>s.split(sep)\<close> for a one-character separator: cut at every occurrence; the
  result always has at least one piece (\<open>''.split('|') == ['']\<close>).
\<close>

fun split :: "pychar \<Rightarrow> pystr \<Rightarrow> pystr list" where
  "split sep [] = [[]]"
| "split sep (c # cs) =
     (if c = sep then [] # split sep cs
      else (case split sep cs of
              p # ps \<Rightarrow> (c # p) # ps
            | [] \<Rightarrow> [[c]]))"

text \<open>
  \<open>s.split(sep, 1)\<close>: cut at the first occurrence only; one piece when the separator
  does not occur.
\<close>

definition split1 :: "pychar \<Rightarrow> pystr \<Rightarrow> pystr list" where
  "split1 sep s =
     (if sep \<in> set s
      then [takeWhile (\<lambda>c. c \<noteq> sep) s, tl (dropWhile (\<lambda>c. c \<noteq> sep) s)]
      else [s])"

text \<open>
  \<open>xs[i]\<close> with Python's negative indices; out of range raises \<open>IndexError\<close>.
\<close>

definition py_index :: "'a list \<Rightarrow> int \<Rightarrow> exn + 'a" where
  "py_index xs i =
     (if 0 \<le> i \<and> i < int (length xs) then Inr (xs ! nat i)
      else if i < 0 \<and> - int (length xs) \<le> i then Inr (xs ! nat (i + int (length xs)))
      else Inl IndexError)"

text \<open>
  \<open>xs[i:j]\<close>: each bound counts from the end when negative and is clamped to the
  list; an empty range gives the empty list. Slicing never raises.
\<close>

definition slice_bound :: "int \<Rightarrow> int \<Rightarrow> int" where
  "slice_bound n i = (if i < 0 then max 0 (i + n) else min i n)"

definition py_slice :: "'a list \<Rightarrow> int \<Rightarrow> int \<Rightarrow> 'a list" where
  "py_slice xs i j =
     (let n = int (length xs); a = slice_bound n i; b = slice_bound n j
      in take (nat (b - a)) (drop (nat a) xs))"

text \<open>
  A Python \<open>dict\<close> from strings to strings, in insertion order: \<open>d[k] = v\<close> replaces
  the value of an existing key in place and appends a new key at the end, which is
  \<open>AList.update\<close>.
\<close>

type_synonym fieldmap = "(pystr \<times> pystr) list"

section \<open>parse_log_line (the same text in app.py and call_logs.py)\<close>

text \<open>
  The loop body \<open>if ':' in field: key, val = field.split(':', 1); parsed[key] = val\<close>.
  Unpacking into two names raises \<open>ValueError\<close> unless the split has two pieces.
\<close>

definition parse_field :: "fieldmap \<Rightarrow> pystr \<Rightarrow> exn + fieldmap" where
  "parse_field parsed field =
     (if COLON \<in> set field
      then (case split1 COLON field of
              [key, val] \<Rightarrow> Inr (AList.update key val parsed)
            | _ \<Rightarrow> Inl ValueError)
      else Inr parsed)"

fun parse_fields :: "fieldmap \<Rightarrow> pystr list \<Rightarrow> exn + fieldmap" where
  "parse_fields parsed [] = Inr parsed"
| "parse_fields parsed (field # fields) =
     (case parse_field parsed field of
        Inl e \<Rightarrow> Inl e
      | Inr parsed' \<Rightarrow> parse_fields parsed' fields)"

text \<open>
  \<open>parse_log_line(line)\<close>: \<open>None\<close> for fewer than two pieces, otherwise the dictionary
  of the fields after the first two pieces; any exception inside is caught and gives
  \<open>None\<close>.
\<close>

definition parse_log_line :: "pystr \<Rightarrow> fieldmap option" where
  "parse_log_line line =
     (let parts = split PIPE line
      in if length parts < 2 then None
         else (case parse_fields [] (drop 2 parts) of
                 Inl e \<Rightarrow> None
               | Inr parsed \<Rightarrow> Some parsed))"

section \<open>process_logs of app.py\<close>

text \<open>
  The entry is the dictionary
  \<open>{"FileName": file_name, "Info": None, "Info_line": None, "Number": None, "CallWindow": None}\<close>;
  the code only ever assigns to these five keys, so it is a record whose optional
  fields are \<open>None\<close> for Python's \<open>None\<close>.
\<close>

record db_entry =
  FileName :: pystr
  Info :: "fieldmap option"
  Info_line :: "pystr option"
  Number :: "fieldmap option"
  CallWindow :: "fieldmap option"

definition SENTINEL :: pystr where
  "SENTINEL = str ''Telsa64''"

text \<open>The value of the default number in app.py: the six code points of its Persian word.\<close>

definition UNKNOWN :: pystr where
  "UNKNOWN = [1606, 1575, 1605, 1588, 1582, 1589]"

definition new_entry :: "pystr \<Rightarrow> db_entry" where
  "new_entry file_name =
     \<lparr>FileName = file_name, Info = None, Info_line = None, Number = None, CallWindow = None\<rparr>"

text \<open>
  One pass of \<open>for line in selected_lines\<close>. \<open>continue\<close> returns the entry as it is.
  \<open>if not parsed\<close> is Python's truth test: it holds for \<open>None\<close> and for the empty
  dictionary.
\<close>

definition process_logs_body :: "db_entry \<Rightarrow> pystr \<Rightarrow> exn + db_entry" where
  "process_logs_body db_entry raw =
     (let line = strip raw; parts = split PIPE line
      in if length parts < 2 then Inr db_entry
         else (case py_index parts 1 of
                 Inl e \<Rightarrow> Inl e
               | Inr p1 \<Rightarrow>
                   (let line_type = strip p1
                    in case parse_log_line line of
                         None \<Rightarrow> Inr db_entry
                       | Some parsed \<Rightarrow>
                           if parsed = [] then Inr db_entry
                           else if line_type = str ''Info''
                             then Inr (db_entry\<lparr>Info := Some parsed, Info_line := Some line\<rparr>)
                           else if line_type = str ''Number''
                             then Inr (db_entry\<lparr>Number := Some parsed\<rparr>)
                           else if line_type = str ''CallWindow''
                             then Inr (db_entry\<lparr>CallWindow := Some parsed\<rparr>)
                           else Inr db_entry)))"

fun process_logs_loop :: "db_entry \<Rightarrow> pystr list \<Rightarrow> exn + db_entry" where
  "process_logs_loop db_entry [] = Inr db_entry"
| "process_logs_loop db_entry (line # selected_lines) =
     (case process_logs_body db_entry line of
        Inl e \<Rightarrow> Inl e
      | Inr db_entry' \<Rightarrow> process_logs_loop db_entry' selected_lines)"

definition default_number :: "db_entry \<Rightarrow> db_entry" where
  "default_number db_entry =
     (if Number db_entry = None
      then db_entry\<lparr>Number := Some [(str ''Number'', UNKNOWN)]\<rparr>
      else db_entry)"

text \<open>
  Everything after the slice: the loop over the selected lines and the default number.
\<close>

definition assemble :: "pystr list \<Rightarrow> pystr \<Rightarrow> exn + db_entry option" where
  "assemble selected_lines file_name =
     (case process_logs_loop (new_entry file_name) selected_lines of
        Inl e \<Rightarrow> Inl e
      | Inr db_entry \<Rightarrow> Inr (Some (default_number db_entry)))"

text \<open>
  The \<open>try\<close> block that reads the count: \<open>int(lines[count_line_index].strip())\<close>, with
  every exception turned into \<open>None\<close> by the handler. The built-in \<open>int\<close> belongs to
  the interpreter (its digit table and its limit on the number of digits are not in the
  repository), so it is the parameter \<open>py_int\<close>, \<open>None\<close> where it raises.
\<close>

definition read_count :: "(pystr \<Rightarrow> int option) \<Rightarrow> pystr list \<Rightarrow> int \<Rightarrow> int option" where
  "read_count py_int lines count_line_index =
     (case py_index lines count_line_index of
        Inl e \<Rightarrow> None
      | Inr count_line \<Rightarrow> py_int (strip count_line))"

text \<open>
  \<open>process_logs(lines, file_name)\<close> of app.py. \<open>Inr None\<close> is the return value
  \<open>None\<close>, \<open>Inr (Some e)\<close> a returned entry, \<open>Inl\<close> an exception that escapes.
\<close>

definition process_logs ::
  "(pystr \<Rightarrow> int option) \<Rightarrow> pystr list \<Rightarrow> pystr \<Rightarrow> exn + db_entry option" where
  "process_logs py_int lines file_name =
     (if lines = [] \<or> length lines < 2 then Inr None
      else (case py_index lines (- 1) of
              Inl e \<Rightarrow> Inl e
            | Inr last_line \<Rightarrow>
                if strip last_line \<noteq> SENTINEL then Inr None
                else (let count_line_index = int (length lines) - 2
                      in case read_count py_int lines count_line_index of
                           None \<Rightarrow> Inr None
                         | Some num_lines_to_read \<Rightarrow>
                             (let start_index = max 0 (count_line_index - num_lines_to_read);
                                  selected_lines = py_slice lines start_index count_line_index
                              in assemble selected_lines file_name))))"

section \<open>process_logs of call_logs.py\<close>

text \<open>
  The older module builds \<open>{"FileName": file_name, "Info": None, "Number": None, "CallWindow": None}\<close>:
  there is no \<open>Info_line\<close> key.
\<close>

record cl_entry =
  cl_FileName :: pystr
  cl_Info :: "fieldmap option"
  cl_Number :: "fieldmap option"
  cl_CallWindow :: "fieldmap option"

definition cl_new_entry :: "pystr \<Rightarrow> cl_entry" where
  "cl_new_entry file_name =
     \<lparr>cl_FileName = file_name, cl_Info = None, cl_Number = None, cl_CallWindow = None\<rparr>"

text \<open>
  The loop body of call_logs.py. For an Info line it first stores
  \<open>parsed_data["Date"] = parts[0]\<close> and \<open>parsed_data["RawLine"] = line\<close>.
\<close>

definition cl_process_logs_body :: "cl_entry \<Rightarrow> pystr \<Rightarrow> exn + cl_entry" where
  "cl_process_logs_body db_entry raw =
     (let line = strip raw; parts = split PIPE line
      in if length parts < 2 then Inr db_entry
         else (case py_index parts 1 of
                 Inl e \<Rightarrow> Inl e
               | Inr p1 \<Rightarrow>
                   (let line_type = strip p1
                    in case parse_log_line line of
                         None \<Rightarrow> Inr db_entry
                       | Some parsed_data \<Rightarrow>
                           if parsed_data = [] then Inr db_entry
                           else if line_type = str ''Info''
                             then (case py_index parts 0 of
                                     Inl e \<Rightarrow> Inl e
                                   | Inr p0 \<Rightarrow>
                                       Inr (db_entry\<lparr>cl_Info := Some
                                         (AList.update (str ''RawLine'') line
                                           (AList.update (str ''Date'') p0 parsed_data))\<rparr>))
                           else if line_type = str ''Number''
                             then Inr (db_entry\<lparr>cl_Number := Some parsed_data\<rparr>)
                           else if line_type = str ''CallWindow''
                             then Inr (db_entry\<lparr>cl_CallWindow := Some parsed_data\<rparr>)
                           else Inr db_entry)))"

fun cl_process_logs_loop :: "cl_entry \<Rightarrow> pystr list \<Rightarrow> exn + cl_entry" where
  "cl_process_logs_loop db_entry [] = Inr db_entry"
| "cl_process_logs_loop db_entry (line # selected_lines) =
     (case cl_process_logs_body db_entry line of
        Inl e \<Rightarrow> Inl e
      | Inr db_entry' \<Rightarrow> cl_process_logs_loop db_entry' selected_lines)"

text \<open>The default number of call_logs.py is the string \<open>"null"\<close>.\<close>

definition cl_default_number :: "cl_entry \<Rightarrow> cl_entry" where
  "cl_default_number db_entry =
     (if cl_Number db_entry = None
      then db_entry\<lparr>cl_Number := Some [(str ''Number'', str ''null'')]\<rparr>
      else db_entry)"

definition cl_assemble :: "pystr list \<Rightarrow> pystr \<Rightarrow> exn + cl_entry option" where
  "cl_assemble selected_lines file_name =
     (case cl_process_logs_loop (cl_new_entry file_name) selected_lines of
        Inl e \<Rightarrow> Inl e
      | Inr db_entry \<Rightarrow> Inr (Some (cl_default_number db_entry)))"

text \<open>
  \<open>process_logs(lines, file_name)\<close> of call_logs.py: only the empty list is refused
  at the start, and a start index below zero returns \<open>None\<close>.
\<close>

definition cl_process_logs ::
  "(pystr \<Rightarrow> int option) \<Rightarrow> pystr list \<Rightarrow> pystr \<Rightarrow> exn + cl_entry option" where
  "cl_process_logs py_int lines file_name =
     (if lines = [] then Inr None
      else (case py_index lines (- 1) of
              Inl e \<Rightarrow> Inl e
            | Inr l \<Rightarrow>
                (let last_line = strip l
                 in if last_line \<noteq> SENTINEL then Inr None
                    else (let count_line_index = int (length lines) - 2
                          in case read_count py_int lines count_line_index of
                               None \<Rightarrow> Inr None
                             | Some num_lines_to_read \<Rightarrow>
                                 (let start_index = count_line_index - num_lines_to_read
                                  in if start_index < 0 then Inr None
                                     else (let selected_lines =
                                                 py_slice lines start_index count_line_index
                                           in cl_assemble selected_lines file_name))))))"

section \<open>save_to_json\<close>

text \<open>
  The state is the file \<open>database.json\<close>: \<open>Missing\<close> when \<open>os.path.exists\<close> is false,
  \<open>Holds db\<close> when it holds the JSON array of the entries \<open>db\<close> (what this program
  writes), and \<open>Broken\<close> when it exists but reading it raises (the file cannot be
  opened, or its text is not a JSON array of entries).
\<close>

datatype 'e json_file = Missing | Holds "'e list" | Broken

text \<open>
  What the environment does to the write: nothing, \<open>open(JSON_FILE, 'w')\<close> raises
  (the file is untouched), or \<open>json.dump\<close> raises after \<open>open\<close> has truncated the
  file, which leaves an incomplete document.
\<close>

datatype write_fault = NoFault | OpenFails | DumpFails

definition load_db :: "'e json_file \<Rightarrow> exn + 'e list" where
  "load_db file =
     (case file of
        Missing \<Rightarrow> Inr []
      | Holds db \<Rightarrow> Inr db
      | Broken \<Rightarrow> Inl OSError)"

definition write_db :: "write_fault \<Rightarrow> 'e json_file \<Rightarrow> 'e list \<Rightarrow> (exn + unit) \<times> 'e json_file" where
  "write_db fault file db =
     (case fault of
        NoFault \<Rightarrow> (Inr (), Holds db)
      | OpenFails \<Rightarrow> (Inl OSError, file)
      | DumpFails \<Rightarrow> (Inl OSError, Broken))"

text \<open>
  \<open>save_to_json(db_entry)\<close> of app.py. The whole body is inside
  \<open>try ... except Exception\<close>, whose handler prints and falls through, and no branch
  has a \<open>return\<close>: the call gives \<open>None\<close> (here \<open>Inr ()\<close>) and the new file.
\<close>

definition save_to_json ::
  "db_entry \<Rightarrow> db_entry json_file \<Rightarrow> write_fault \<Rightarrow> (exn + unit) \<times> db_entry json_file" where
  "save_to_json db_entry file fault =
     (case load_db file of
        Inl e \<Rightarrow> (Inr (), file)
      | Inr db \<Rightarrow>
          if \<not> list_ex (\<lambda>e. FileName e = FileName db_entry) db
          then (case write_db fault file (db @ [db_entry]) of
                  (Inl e, file') \<Rightarrow> (Inr (), file')
                | (Inr u, file') \<Rightarrow> (Inr (), file'))
          else (Inr (), file))"

text \<open>\<open>save_to_json\<close> of call_logs.py: the same, without the test for the file name.\<close>

definition cl_save_to_json ::
  "cl_entry \<Rightarrow> cl_entry json_file \<Rightarrow> write_fault \<Rightarrow> (exn + unit) \<times> cl_entry json_file" where
  "cl_save_to_json db_entry file fault =
     (case load_db file of
        Inl e \<Rightarrow> (Inr (), file)
      | Inr db \<Rightarrow>
          (case write_db fault file (db @ [db_entry]) of
             (Inl e, file') \<Rightarrow> (Inr (), file')
           | (Inr u, file') \<Rightarrow> (Inr (), file')))"

section \<open>The JSON document of an entry\<close>

text \<open>
  \<open>json.dump\<close> writes a dictionary as an object with its keys in insertion order,
  \<open>None\<close> as \<open>null\<close> and a string as a string.
\<close>

datatype json = JNull | JString pystr | JObject "(pystr \<times> json) list"

definition json_of_dict :: "fieldmap \<Rightarrow> json" where
  "json_of_dict d = JObject (map (\<lambda>(k, v). (k, JString v)) d)"

definition json_of_opt_dict :: "fieldmap option \<Rightarrow> json" where
  "json_of_opt_dict d = (case d of None \<Rightarrow> JNull | Some m \<Rightarrow> json_of_dict m)"

definition json_of_opt_str :: "pystr option \<Rightarrow> json" where
  "json_of_opt_str x = (case x of None \<Rightarrow> JNull | Some t \<Rightarrow> JString t)"

definition json_of_entry :: "db_entry \<Rightarrow> json" where
  "json_of_entry e =
     JObject [(str ''FileName'', JString (FileName e)),
              (str ''Info'', json_of_opt_dict (Info e)),
              (str ''Info_line'', json_of_opt_str (Info_line e)),
              (str ''Number'', json_of_opt_dict (Number e)),
              (str ''CallWindow'', json_of_opt_dict (CallWindow e))]"

definition cl_json_of_entry :: "cl_entry \<Rightarrow> json" where
  "cl_json_of_entry e =
     JObject [(str ''FileName'', JString (cl_FileName e)),
              (str ''Info'', json_of_opt_dict (cl_Info e)),
              (str ''Number'', json_of_opt_dict (cl_Number e)),
              (str ''CallWindow'', json_of_opt_dict (cl_CallWindow e))]"

section \<open>A concrete integer parser for running the model\<close>

text \<open>
  \<open>ascii_int\<close> is \<open>int(s)\<close> on strings whose digits are ASCII: surrounding whitespace,
  one optional sign, and digits with single underscores between them. It instantiates
  the parameter \<open>py_int\<close> on concrete inputs; no general theorem depends on it.
\<close>

definition is_digit :: "pychar \<Rightarrow> bool" where
  "is_digit c = (48 \<le> c \<and> c \<le> 57)"

fun digits :: "nat \<Rightarrow> pystr \<Rightarrow> nat option" where
  "digits acc [] = Some acc"
| "digits acc (c # cs) =
     (if is_digit c then digits (10 * acc + (c - 48)) cs
      else if c = 95 \<and> cs \<noteq> [] \<and> is_digit (hd cs) then digits acc cs
      else None)"

definition unsigned :: "pystr \<Rightarrow> nat option" where
  "unsigned s = (case s of [] \<Rightarrow> None | c # cs \<Rightarrow> if is_digit c then digits 0 s else None)"

definition ascii_int :: "pystr \<Rightarrow> int option" where
  "ascii_int s =
     (case strip s of
        [] \<Rightarrow> None
      | c # cs \<Rightarrow>
          if c = 45 then map_option (\<lambda>n. - int n) (unsigned cs)
          else if c = 43 then map_option int (unsigned cs)
          else map_option int (unsigned (c # cs)))"

section \<open>Notions of the specification\<close>

text \<open>
  The record-type discriminator of a window line: the second piece of the trimmed
  line, trimmed; \<open>None\<close> when the line has fewer than two pieces.
\<close>

definition line_type_of :: "pystr \<Rightarrow> pystr option" where
  "line_type_of raw =
     (let parts = split PIPE (strip raw)
      in if length parts < 2 then None else Some (strip (parts ! 1)))"

text \<open>
  The key and value pairs of a line in the words of the specification: of the pieces
  from index 2 on, those that contain a colon, each cut at its first colon.
\<close>

definition key_of :: "pystr \<Rightarrow> pystr" where
  "key_of field = takeWhile (\<lambda>c. c \<noteq> COLON) field"

definition value_of :: "pystr \<Rightarrow> pystr" where
  "value_of field = tl (dropWhile (\<lambda>c. c \<noteq> COLON) field)"

definition spec_fields :: "pystr \<Rightarrow> (pystr \<times> pystr) list" where
  "spec_fields line =
     map (\<lambda>field. (key_of field, value_of field))
       (filter (\<lambda>field. COLON \<in> set field) (drop 2 (split PIPE line)))"

text \<open>
  A window line sets a field of the entry when its discriminator is the field's name
  and its parse is a non-empty dictionary.
\<close>

definition sets_field :: "pystr \<Rightarrow> pystr \<Rightarrow> bool" where
  "sets_field name raw =
     (line_type_of raw = Some name \<and>
      (case parse_log_line (strip raw) of None \<Rightarrow> False | Some parsed \<Rightarrow> parsed \<noteq> []))"

text \<open>
  The dictionary after storing a list of key and value pairs in order, that is after
  \<open>parsed[key] = val\<close> for each pair.
\<close>

fun store_fields :: "fieldmap \<Rightarrow> (pystr \<times> pystr) list \<Rightarrow> fieldmap" where
  "store_fields parsed [] = parsed"
| "store_fields parsed ((k, v) # kvs) = store_fields (AList.update k v parsed) kvs"

text \<open>
  What one window line does to the entry, as a function of the line's discriminator
  and parse (shown below to be what the loop bodies compute).
\<close>

definition line_effect :: "db_entry \<Rightarrow> pystr \<Rightarrow> db_entry" where
  "line_effect e raw =
     (case parse_log_line (strip raw) of
        None \<Rightarrow> e
      | Some parsed \<Rightarrow>
          if parsed = [] then e
          else if line_type_of raw = Some (str ''Info'')
            then e\<lparr>Info := Some parsed, Info_line := Some (strip raw)\<rparr>
          else if line_type_of raw = Some (str ''Number'') then e\<lparr>Number := Some parsed\<rparr>
          else if line_type_of raw = Some (str ''CallWindow'') then e\<lparr>CallWindow := Some parsed\<rparr>
          else e)"

definition cl_line_effect :: "cl_entry \<Rightarrow> pystr \<Rightarrow> cl_entry" where
  "cl_line_effect e raw =
     (case parse_log_line (strip raw) of
        None \<Rightarrow> e
      | Some parsed \<Rightarrow>
          if parsed = [] then e
          else if line_type_of raw = Some (str ''Info'')
            then e\<lparr>cl_Info := Some
                   (AList.update (str ''RawLine'') (strip raw)
                     (AList.update (str ''Date'') (split PIPE (strip raw) ! 0) parsed))\<rparr>
          else if line_type_of raw = Some (str ''Number'') then e\<lparr>cl_Number := Some parsed\<rparr>
          else if line_type_of raw = Some (str ''CallWindow'') then e\<lparr>cl_CallWindow := Some parsed\<rparr>
          else e)"

text \<open>
  Where the \<open>Info\<close> of an entry comes from: it is \<open>None\<close>, or it was set by an \<open>Info\<close>
  line of the set \<open>S\<close>.
\<close>

definition info_from :: "pystr set \<Rightarrow> db_entry \<Rightarrow> bool" where
  "info_from S e =
     ((Info e = None \<and> Info_line e = None) \<or>
      (\<exists>l\<in>S. sets_field (str ''Info'') l \<and> Info e = parse_log_line (strip l)
         \<and> Info_line e = Some (strip l)))"

definition cl_info_from :: "pystr set \<Rightarrow> cl_entry \<Rightarrow> bool" where
  "cl_info_from S c =
     (cl_Info c = None \<or>
      (\<exists>l\<in>S. sets_field (str ''Info'') l \<and>
         cl_Info c = map_option
           (\<lambda>parsed. AList.update (str ''RawLine'') (strip l)
              (AList.update (str ''Date'') (split PIPE (strip l) ! 0) parsed))
           (parse_log_line (strip l))))"

section \<open>Strings, lists and dictionaries\<close>

lemma split_not_Nil: "split sep s \<noteq> []"
  by (induction s) (auto split: list.splits)

lemma length_split: "length (split sep s) = Suc (length (filter (\<lambda>c. c = sep) s))"
  by (induction s) (auto split: list.splits simp: split_not_Nil)

lemma length_split_less_2: "length (split sep s) < 2 \<longleftrightarrow> sep \<notin> set s"
proof -
  have "length (filter (\<lambda>c. c = sep) s) = 0 \<longleftrightarrow> sep \<notin> set s"
    by (auto simp: filter_empty_conv)
  then show ?thesis
    unfolding length_split by auto
qed

lemma py_index_1: "2 \<le> length xs \<Longrightarrow> py_index xs 1 = Inr (xs ! 1)"
  by (simp add: py_index_def)

lemma py_index_0: "xs \<noteq> [] \<Longrightarrow> py_index xs 0 = Inr (xs ! 0)"
  by (simp add: py_index_def)

lemma py_index_last: "xs \<noteq> [] \<Longrightarrow> py_index xs (- 1) = Inr (last xs)"
proof -
  assume ne: "xs \<noteq> []"
  then have "1 \<le> length xs" by (cases xs) simp_all
  then show ?thesis
    using ne by (simp add: py_index_def last_conv_nth nat_diff_distrib')
qed

lemma map_of_store_fields:
  "map_of (store_fields parsed kvs) = map_of parsed ++ map_of (rev kvs)"
proof (induction kvs arbitrary: parsed)
  case Nil
  then show ?case by simp
next
  case (Cons kv kvs)
  obtain k v where kv: "kv = (k, v)" by (cases kv)
  have "map_of (store_fields parsed (kv # kvs)) = map_of (AList.update k v parsed) ++ map_of (rev kvs)"
    unfolding kv store_fields.simps by (rule Cons.IH)
  also have "map_of (AList.update k v parsed) = map_of parsed ++ [k \<mapsto> v]"
    by (simp only: update_conv' map_add_upd map_add_empty)
  also have "(map_of parsed ++ [k \<mapsto> v]) ++ map_of (rev kvs) = map_of parsed ++ ([k \<mapsto> v] ++ map_of (rev kvs))"
    by (simp only: map_add_assoc)
  also have "[k \<mapsto> v] ++ map_of (rev kvs) = map_of (rev (kv # kvs))"
    unfolding kv by (simp only: rev.simps map_of_append map_of.simps fst_conv snd_conv)
  finally show ?case .
qed

lemma distinct_store_fields:
  "distinct (map fst parsed) \<Longrightarrow> distinct (map fst (store_fields parsed kvs))"
  by (induction kvs arbitrary: parsed) (auto simp: distinct_update)

lemma store_fields_Nil_iff: "store_fields parsed kvs = [] \<longleftrightarrow> parsed = [] \<and> kvs = []"
proof (induction kvs arbitrary: parsed)
  case Nil
  show ?case by simp
next
  case (Cons kv kvs)
  obtain k v where kv: "kv = (k, v)" by (cases kv)
  show ?case unfolding kv store_fields.simps Cons.IH
    by simp
qed

section \<open>parse_log_line never takes its exception handler\<close>

lemma parse_field_Inr:
  "parse_field parsed field =
     Inr (if COLON \<in> set field then AList.update (key_of field) (value_of field) parsed else parsed)"
  by (simp add: parse_field_def split1_def key_of_def value_of_def)

lemma parse_fields_Inr:
  "parse_fields parsed fs =
     Inr (store_fields parsed
       (map (\<lambda>field. (key_of field, value_of field)) (filter (\<lambda>field. COLON \<in> set field) fs)))"
  by (induction fs arbitrary: parsed) (simp_all add: parse_field_Inr)

lemma parse_log_line_eq:
  "parse_log_line line =
     (if PIPE \<in> set line then Some (store_fields [] (spec_fields line)) else None)"
  by (simp add: parse_log_line_def Let_def length_split_less_2 parse_fields_Inr spec_fields_def)

section \<open>The loop bodies raise nothing\<close>

lemma process_logs_body_eq: "process_logs_body e raw = Inr (line_effect e raw)"
proof (cases "PIPE \<in> set (strip raw)")
  case False
  then show ?thesis
    by (simp add: process_logs_body_def line_effect_def Let_def length_split_less_2 parse_log_line_eq)
next
  case True
  then have len: "2 \<le> length (split PIPE (strip raw))"
    using length_split_less_2 [of PIPE "strip raw"] by simp
  then have lt: "line_type_of raw = Some (strip (split PIPE (strip raw) ! 1))"
    by (simp add: line_type_of_def Let_def)
  show ?thesis
    using len
    by (simp add: process_logs_body_def line_effect_def Let_def py_index_1 lt parse_log_line_eq True)
qed

lemma cl_process_logs_body_eq: "cl_process_logs_body e raw = Inr (cl_line_effect e raw)"
proof (cases "PIPE \<in> set (strip raw)")
  case False
  then show ?thesis
    by (simp add: cl_process_logs_body_def cl_line_effect_def Let_def length_split_less_2
        parse_log_line_eq)
next
  case True
  then have len: "2 \<le> length (split PIPE (strip raw))"
    using length_split_less_2 [of PIPE "strip raw"] by simp
  then have lt: "line_type_of raw = Some (strip (split PIPE (strip raw) ! 1))"
    by (simp add: line_type_of_def Let_def)
  have p0: "py_index (split PIPE (strip raw)) 0 = Inr (split PIPE (strip raw) ! 0)"
    by (rule py_index_0) (rule split_not_Nil)
  show ?thesis
    using len
    by (simp add: cl_process_logs_body_def cl_line_effect_def Let_def py_index_1 p0 lt
        parse_log_line_eq True)
qed

lemma process_logs_loop_eq: "process_logs_loop e ls = Inr (foldl line_effect e ls)"
  by (induction ls arbitrary: e) (simp_all add: process_logs_body_eq)

lemma cl_process_logs_loop_eq: "cl_process_logs_loop e ls = Inr (foldl cl_line_effect e ls)"
  by (induction ls arbitrary: e) (simp_all add: cl_process_logs_body_eq)

lemma assemble_eq:
  "assemble window file_name =
     Inr (Some (default_number (foldl line_effect (new_entry file_name) window)))"
  by (simp add: assemble_def process_logs_loop_eq)

lemma cl_assemble_eq:
  "cl_assemble window file_name =
     Inr (Some (cl_default_number (foldl cl_line_effect (cl_new_entry file_name) window)))"
  by (simp add: cl_assemble_def cl_process_logs_loop_eq)

section \<open>What a window line does to the entry\<close>

lemma type_names_distinct:
  "str ''Info'' \<noteq> str ''Number''" "str ''Info'' \<noteq> str ''CallWindow''"
  "str ''Number'' \<noteq> str ''CallWindow''" "str ''Number'' \<noteq> str ''Info''"
  "str ''CallWindow'' \<noteq> str ''Info''" "str ''CallWindow'' \<noteq> str ''Number''"
  by (simp_all add: str_def)

lemma line_effect_skip:
  "parse_log_line (strip raw) = None \<or> parse_log_line (strip raw) = Some [] \<Longrightarrow>
     line_effect e raw = e"
  by (auto simp: line_effect_def)

lemma cl_line_effect_skip:
  "parse_log_line (strip raw) = None \<or> parse_log_line (strip raw) = Some [] \<Longrightarrow>
     cl_line_effect e raw = e"
  by (auto simp: cl_line_effect_def)

lemma line_effect_FileName: "FileName (line_effect e raw) = FileName e"
  by (simp add: line_effect_def split: option.splits)

lemma cl_line_effect_FileName: "cl_FileName (cl_line_effect e raw) = cl_FileName e"
  by (simp add: cl_line_effect_def split: option.splits)

lemma line_effect_Info:
  "Info (line_effect e raw) =
     (if sets_field (str ''Info'') raw then parse_log_line (strip raw) else Info e)"
  by (auto simp: line_effect_def sets_field_def type_names_distinct split: option.splits)

lemma line_effect_Info_line:
  "Info_line (line_effect e raw) =
     (if sets_field (str ''Info'') raw then Some (strip raw) else Info_line e)"
  by (auto simp: line_effect_def sets_field_def type_names_distinct split: option.splits)

lemma line_effect_Number:
  "Number (line_effect e raw) =
     (if sets_field (str ''Number'') raw then parse_log_line (strip raw) else Number e)"
  by (auto simp: line_effect_def sets_field_def type_names_distinct split: option.splits)

lemma line_effect_CallWindow:
  "CallWindow (line_effect e raw) =
     (if sets_field (str ''CallWindow'') raw then parse_log_line (strip raw) else CallWindow e)"
  by (auto simp: line_effect_def sets_field_def type_names_distinct split: option.splits)

lemma cl_line_effect_Info:
  "cl_Info (cl_line_effect e raw) =
     (if sets_field (str ''Info'') raw
      then map_option (\<lambda>parsed. AList.update (str ''RawLine'') (strip raw)
             (AList.update (str ''Date'') (split PIPE (strip raw) ! 0) parsed))
             (parse_log_line (strip raw))
      else cl_Info e)"
  by (auto simp: cl_line_effect_def sets_field_def type_names_distinct split: option.splits)

lemma cl_line_effect_Number:
  "cl_Number (cl_line_effect e raw) =
     (if sets_field (str ''Number'') raw then parse_log_line (strip raw) else cl_Number e)"
  by (auto simp: cl_line_effect_def sets_field_def type_names_distinct split: option.splits)

lemma cl_line_effect_CallWindow:
  "cl_CallWindow (cl_line_effect e raw) =
     (if sets_field (str ''CallWindow'') raw then parse_log_line (strip raw) else cl_CallWindow e)"
  by (auto simp: cl_line_effect_def sets_field_def type_names_distinct split: option.splits)

lemma foldl_FileName: "FileName (foldl line_effect e ls) = FileName e"
  by (induction ls arbitrary: e) (simp_all add: line_effect_FileName)

lemma cl_foldl_FileName: "cl_FileName (foldl cl_line_effect e ls) = cl_FileName e"
  by (induction ls arbitrary: e) (simp_all add: cl_line_effect_FileName)

lemma foldl_Number_unchanged:
  "\<forall>x\<in>set ls. \<not> sets_field (str ''Number'') x \<Longrightarrow> Number (foldl line_effect e ls) = Number e"
  by (induction ls arbitrary: e) (simp_all add: line_effect_Number)

lemma foldl_Info_unchanged:
  "\<forall>x\<in>set ls. \<not> sets_field (str ''Info'') x \<Longrightarrow>
     Info (foldl line_effect e ls) = Info e \<and> Info_line (foldl line_effect e ls) = Info_line e"
  by (induction ls arbitrary: e) (simp_all add: line_effect_Info line_effect_Info_line)

lemma foldl_CallWindow_unchanged:
  "\<forall>x\<in>set ls. \<not> sets_field (str ''CallWindow'') x \<Longrightarrow>
     CallWindow (foldl line_effect e ls) = CallWindow e"
  by (induction ls arbitrary: e) (simp_all add: line_effect_CallWindow)

lemma cl_foldl_Number_unchanged:
  "\<forall>x\<in>set ls. \<not> sets_field (str ''Number'') x \<Longrightarrow>
     cl_Number (foldl cl_line_effect e ls) = cl_Number e"
  by (induction ls arbitrary: e) (simp_all add: cl_line_effect_Number)

lemma cl_foldl_Info_unchanged:
  "\<forall>x\<in>set ls. \<not> sets_field (str ''Info'') x \<Longrightarrow>
     cl_Info (foldl cl_line_effect e ls) = cl_Info e"
  by (induction ls arbitrary: e) (simp_all add: cl_line_effect_Info)

lemma cl_foldl_CallWindow_unchanged:
  "\<forall>x\<in>set ls. \<not> sets_field (str ''CallWindow'') x \<Longrightarrow>
     cl_CallWindow (foldl cl_line_effect e ls) = cl_CallWindow e"
  by (induction ls arbitrary: e) (simp_all add: cl_line_effect_CallWindow)

lemma default_number_fields:
  "FileName (default_number e) = FileName e" "Info (default_number e) = Info e"
  "Info_line (default_number e) = Info_line e" "CallWindow (default_number e) = CallWindow e"
  "Number (default_number e) =
     (case Number e of None \<Rightarrow> Some [(str ''Number'', UNKNOWN)] | Some m \<Rightarrow> Some m)"
  by (auto simp: default_number_def split: option.splits)

lemma cl_default_number_fields:
  "cl_FileName (cl_default_number e) = cl_FileName e" "cl_Info (cl_default_number e) = cl_Info e"
  "cl_CallWindow (cl_default_number e) = cl_CallWindow e"
  "cl_Number (cl_default_number e) =
     (case cl_Number e of None \<Rightarrow> Some [(str ''Number'', str ''null'')] | Some m \<Rightarrow> Some m)"
  by (auto simp: cl_default_number_def split: option.splits)

lemma not_Number_type: "line_type_of x \<noteq> Some name \<Longrightarrow> \<not> sets_field name x"
  by (simp add: sets_field_def)

section \<open>process_logs in terms of the window\<close>

lemma py_index_count_line:
  "2 \<le> length lines \<Longrightarrow>
     py_index lines (int (length lines) - 2) = Inr (lines ! (length lines - 2))"
  by (simp add: py_index_def Let_def nat_diff_distrib')

lemma py_slice_nonneg:
  "0 \<le> i \<Longrightarrow> 0 \<le> j \<Longrightarrow> py_slice xs i j = drop (nat i) (take (nat j) xs)"
proof -
  assume i: "0 \<le> i" and j: "0 \<le> j"
  let ?n = "int (length xs)"
  have "py_slice xs i j = take (nat (min j ?n - min i ?n)) (drop (nat (min i ?n)) xs)"
    using i j by (simp add: py_slice_def slice_bound_def Let_def)
  also have "\<dots> = drop (nat i) (take (nat j) xs)"
  proof (cases "i \<le> ?n")
    case True
    then have mi: "min i ?n = i" by simp
    show ?thesis
    proof (cases "j \<le> ?n")
      case True
      then show ?thesis
        using i j unfolding mi by (simp add: drop_take nat_diff_distrib')
    next
      case False
      then have "min j ?n = ?n" and "length xs \<le> nat j" by simp_all
      then show ?thesis
        using i \<open>i \<le> ?n\<close> unfolding mi by (simp add: nat_diff_distrib')
    qed
  next
    case False
    then have "length xs \<le> nat i" by simp
    then show ?thesis by simp
  qed
  finally show ?thesis .
qed

lemma set_py_slice: "set (py_slice xs i j) \<subseteq> set xs"
proof -
  have "set (py_slice xs i j) \<subseteq> set (drop (nat (slice_bound (int (length xs)) i)) xs)"
    unfolding py_slice_def Let_def by (rule set_take_subset)
  also have "\<dots> \<subseteq> set xs"
    by (rule set_drop_subset)
  finally show ?thesis .
qed

lemma process_logs_eq:
  "process_logs py_int lines file_name =
     (if length lines < 2 then Inr None
      else if strip (last lines) \<noteq> SENTINEL then Inr None
      else (case py_int (strip (lines ! (length lines - 2))) of
              None \<Rightarrow> Inr None
            | Some n \<Rightarrow>
                assemble (py_slice lines (max 0 (int (length lines) - 2 - n))
                  (int (length lines) - 2)) file_name))"
proof (cases "length lines < 2")
  case True
  then show ?thesis by (simp add: process_logs_def)
next
  case False
  then have ne: "lines \<noteq> []" and len: "2 \<le> length lines" by auto
  show ?thesis
    using False ne
    by (simp add: process_logs_def py_index_last [OF ne] read_count_def
        py_index_count_line [OF len] Let_def split: option.split)
qed

lemma cl_process_logs_eq:
  "2 \<le> length lines \<Longrightarrow>
   cl_process_logs py_int lines file_name =
     (if strip (last lines) \<noteq> SENTINEL then Inr None
      else (case py_int (strip (lines ! (length lines - 2))) of
              None \<Rightarrow> Inr None
            | Some n \<Rightarrow>
                if int (length lines) - 2 - n < 0 then Inr None
                else cl_assemble (py_slice lines (int (length lines) - 2 - n)
                       (int (length lines) - 2)) file_name))"
proof -
  assume len: "2 \<le> length lines"
  then have ne: "lines \<noteq> []" by auto
  show ?thesis
    using ne
    by (simp add: cl_process_logs_def py_index_last [OF ne] read_count_def
        py_index_count_line [OF len] Let_def split: option.split)
qed

lemma cl_process_logs_single:
  "cl_process_logs py_int [l] file_name =
     (if strip l \<noteq> SENTINEL then Inr None
      else (case py_int (strip l) of
              None \<Rightarrow> Inr None
            | Some n \<Rightarrow>
                if - 1 - n < 0 then Inr None
                else cl_assemble (py_slice [l] (- 1 - n) (- 1)) file_name))"
  by (simp add: cl_process_logs_def py_index_def read_count_def Let_def split: option.split)

lemma assemble_Nil:
  "assemble [] file_name =
     Inr (Some \<lparr>FileName = file_name, Info = None, Info_line = None,
                Number = Some [(str ''Number'', UNKNOWN)], CallWindow = None\<rparr>)"
  by (simp add: assemble_eq new_entry_def default_number_def)

lemma cl_assemble_Nil:
  "cl_assemble [] file_name =
     Inr (Some \<lparr>cl_FileName = file_name, cl_Info = None,
                cl_Number = Some [(str ''Number'', str ''null'')], cl_CallWindow = None\<rparr>)"
  by (simp add: cl_assemble_eq cl_new_entry_def cl_default_number_def)

lemma assemble_shape:
  "\<exists>e. assemble window file_name = Inr (Some e) \<and> FileName e = file_name \<and> Number e \<noteq> None"
  by (simp add: assemble_eq default_number_fields foldl_FileName new_entry_def split: option.splits)

lemma cl_assemble_shape:
  "\<exists>e. cl_assemble window file_name = Inr (Some e) \<and> cl_FileName e = file_name
     \<and> cl_Number e \<noteq> None"
  by (simp add: cl_assemble_eq cl_default_number_fields cl_foldl_FileName cl_new_entry_def
      split: option.splits)

section \<open>The shape of a returned entry\<close>

lemma info_from_step: "info_from S e \<Longrightarrow> l \<in> S \<Longrightarrow> info_from S (line_effect e l)"
  unfolding info_from_def line_effect_Info line_effect_Info_line by auto

lemma info_from_foldl: "info_from S e \<Longrightarrow> set ls \<subseteq> S \<Longrightarrow> info_from S (foldl line_effect e ls)"
  by (induction ls arbitrary: e) (simp_all add: info_from_step)

lemma cl_info_from_step: "cl_info_from S c \<Longrightarrow> l \<in> S \<Longrightarrow> cl_info_from S (cl_line_effect c l)"
  unfolding cl_info_from_def cl_line_effect_Info by auto

lemma cl_info_from_foldl:
  "cl_info_from S c \<Longrightarrow> set ls \<subseteq> S \<Longrightarrow> cl_info_from S (foldl cl_line_effect c ls)"
  by (induction ls arbitrary: c) (simp_all add: cl_info_from_step)

lemma process_logs_Some:
  "process_logs py_int lines file_name = Inr (Some e) \<Longrightarrow>
     \<exists>w. set w \<subseteq> set lines \<and> e = default_number (foldl line_effect (new_entry file_name) w)"
proof -
  assume a: "process_logs py_int lines file_name = Inr (Some e)"
  then have g: "\<not> length lines < 2" "strip (last lines) = SENTINEL"
    by (auto simp: process_logs_eq split: if_splits)
  with a obtain n where n: "py_int (strip (lines ! (length lines - 2))) = Some n"
    by (cases "py_int (strip (lines ! (length lines - 2)))") (simp_all add: process_logs_eq)
  let ?w = "py_slice lines (max 0 (int (length lines) - 2 - n)) (int (length lines) - 2)"
  have "e = default_number (foldl line_effect (new_entry file_name) ?w)"
    using a g n by (simp add: process_logs_eq assemble_eq)
  moreover have "set ?w \<subseteq> set lines"
    by (rule set_py_slice)
  ultimately show ?thesis by blast
qed

lemma cl_process_logs_Some:
  "cl_process_logs py_int lines file_name = Inr (Some c) \<Longrightarrow>
     \<exists>w. set w \<subseteq> set lines \<and> c = cl_default_number (foldl cl_line_effect (cl_new_entry file_name) w)"
proof -
  assume a: "cl_process_logs py_int lines file_name = Inr (Some c)"
  have "\<exists>i j. cl_assemble (py_slice lines i j) file_name = Inr (Some c)"
  proof (cases "2 \<le> length lines")
    case True
    from a have g: "strip (last lines) = SENTINEL"
      by (auto simp: cl_process_logs_eq [OF True] split: if_splits)
    with a obtain n where n: "py_int (strip (lines ! (length lines - 2))) = Some n"
      by (cases "py_int (strip (lines ! (length lines - 2)))")
        (simp_all add: cl_process_logs_eq [OF True])
    from a g n have "\<not> int (length lines) - 2 - n < 0"
      by (auto simp: cl_process_logs_eq [OF True] split: if_splits)
    with a g n have "cl_assemble (py_slice lines (int (length lines) - 2 - n)
        (int (length lines) - 2)) file_name = Inr (Some c)"
      by (simp add: cl_process_logs_eq [OF True])
    then show ?thesis by blast
  next
    case False
    then consider "lines = []" | l where "lines = [l]"
      by (cases lines) (auto simp: Suc_le_eq)
    then show ?thesis
    proof cases
      case 1
      with a show ?thesis by (simp add: cl_process_logs_def)
    next
      case 2
      from a have g: "strip l = SENTINEL"
        unfolding 2 by (auto simp: cl_process_logs_single split: if_splits)
      with a obtain n where n: "py_int (strip l) = Some n"
        unfolding 2 by (cases "py_int (strip l)") (simp_all add: cl_process_logs_single)
      from a g n have "\<not> - 1 - n < 0"
        unfolding 2 by (auto simp: cl_process_logs_single split: if_splits)
      with a g n have "cl_assemble (py_slice [l] (- 1 - n) (- 1)) file_name = Inr (Some c)"
        unfolding 2 by (simp add: cl_process_logs_single)
      then show ?thesis unfolding 2 by blast
    qed
  qed
  then obtain i j where "cl_assemble (py_slice lines i j) file_name = Inr (Some c)"
    by blast
  then have "c = cl_default_number (foldl cl_line_effect (cl_new_entry file_name) (py_slice lines i j))"
    by (simp add: cl_assemble_eq)
  moreover have "set (py_slice lines i j) \<subseteq> set lines"
    by (rule set_py_slice)
  ultimately show ?thesis by blast
qed

lemma entry_info_from:
  "set w \<subseteq> S \<Longrightarrow> info_from S (default_number (foldl line_effect (new_entry file_name) w))"
proof -
  assume "set w \<subseteq> S"
  moreover have "info_from S (new_entry file_name)"
    by (simp add: info_from_def new_entry_def)
  ultimately have "info_from S (foldl line_effect (new_entry file_name) w)"
    by (intro info_from_foldl)
  then show ?thesis
    by (simp add: info_from_def default_number_fields)
qed

lemma cl_entry_info_from:
  "set w \<subseteq> S \<Longrightarrow>
     cl_info_from S (cl_default_number (foldl cl_line_effect (cl_new_entry file_name) w))"
proof -
  assume "set w \<subseteq> S"
  moreover have "cl_info_from S (cl_new_entry file_name)"
    by (simp add: cl_info_from_def cl_new_entry_def)
  ultimately have "cl_info_from S (foldl cl_line_effect (cl_new_entry file_name) w)"
    by (intro cl_info_from_foldl)
  then show ?thesis
    by (simp add: cl_info_from_def cl_default_number_fields)
qed

lemma json_of_opt_dict_cases: "json_of_opt_dict d = JNull \<or> (\<exists>fs. json_of_opt_dict d = JObject fs)"
  by (cases d) (simp_all add: json_of_opt_dict_def json_of_dict_def)

lemma json_of_opt_str_cases: "json_of_opt_str x = JNull \<or> (\<exists>t. json_of_opt_str x = JString t)"
  by (cases x) (simp_all add: json_of_opt_str_def)

lemma json_of_entry_shape:
  "FileName e = file_name \<Longrightarrow> Number e \<noteq> None \<Longrightarrow>
   \<exists>info info_line number call_window.
      json_of_entry e = JObject [(str ''FileName'', JString file_name), (str ''Info'', info),
        (str ''Info_line'', info_line), (str ''Number'', JObject number),
        (str ''CallWindow'', call_window)]
      \<and> (info = JNull \<or> (\<exists>fs. info = JObject fs))
      \<and> (info_line = JNull \<or> (\<exists>t. info_line = JString t))
      \<and> (call_window = JNull \<or> (\<exists>fs. call_window = JObject fs))"
proof -
  assume f: "FileName e = file_name" and n: "Number e \<noteq> None"
  then obtain m where "Number e = Some m" by auto
  then have "json_of_opt_dict (Number e) = JObject (map (\<lambda>(k, v). (k, JString v)) m)"
    by (simp add: json_of_opt_dict_def json_of_dict_def)
  then show ?thesis
    using f json_of_opt_dict_cases [of "Info e"] json_of_opt_dict_cases [of "CallWindow e"]
      json_of_opt_str_cases [of "Info_line e"]
    by (simp add: json_of_entry_def)
qed

lemma cl_json_of_entry_shape:
  "cl_FileName c = file_name \<Longrightarrow> cl_Number c \<noteq> None \<Longrightarrow>
   \<exists>info number call_window.
      cl_json_of_entry c = JObject [(str ''FileName'', JString file_name), (str ''Info'', info),
        (str ''Number'', JObject number), (str ''CallWindow'', call_window)]
      \<and> (info = JNull \<or> (\<exists>fs. info = JObject fs))
      \<and> (call_window = JNull \<or> (\<exists>fs. call_window = JObject fs))"
proof -
  assume f: "cl_FileName c = file_name" and n: "cl_Number c \<noteq> None"
  then obtain m where "cl_Number c = Some m" by auto
  then have "json_of_opt_dict (cl_Number c) = JObject (map (\<lambda>(k, v). (k, JString v)) m)"
    by (simp add: json_of_opt_dict_def json_of_dict_def)
  then show ?thesis
    using f json_of_opt_dict_cases [of "cl_Info c"] json_of_opt_dict_cases [of "cl_CallWindow c"]
    by (simp add: cl_json_of_entry_def)
qed

section \<open>Values of the model on concrete lines\<close>

lemma eval_strip_sentinel: "strip (str ''Telsa64'') = SENTINEL"
  by (simp add: strip_def isspace_def str_def SENTINEL_def)

lemma eval_int_3: "ascii_int (strip (str ''3'')) = Some 3"
  by (simp add: ascii_int_def unsigned_def is_digit_def strip_def isspace_def str_def)

lemma eval_int_0: "ascii_int (strip (str ''0'')) = Some 0"
  by (simp add: ascii_int_def unsigned_def is_digit_def strip_def isspace_def str_def)

lemma eval_int_sentinel: "ascii_int SENTINEL = None"
  by (simp add: ascii_int_def unsigned_def is_digit_def strip_def isspace_def str_def SENTINEL_def)

lemma eval_number_line:
  "line_effect e (str ''d|Number|Number:5'') = e\<lparr>Number := Some [(str ''Number'', str ''5'')]\<rparr>"
  "cl_line_effect c (str ''d|Number|Number:5'') = c\<lparr>cl_Number := Some [(str ''Number'', str ''5'')]\<rparr>"
proof -
  have s: "strip (str ''d|Number|Number:5'') = str ''d|Number|Number:5''"
    by (simp add: strip_def isspace_def str_def)
  have p: "parse_log_line (str ''d|Number|Number:5'') = Some [(str ''Number'', str ''5'')]"
    by (simp add: parse_log_line_def str_def PIPE_def COLON_def parse_field_def split1_def)
  have t: "line_type_of (str ''d|Number|Number:5'') = Some (str ''Number'')"
    by (simp add: line_type_of_def strip_def isspace_def str_def PIPE_def)
  show "line_effect e (str ''d|Number|Number:5'') = e\<lparr>Number := Some [(str ''Number'', str ''5'')]\<rparr>"
    by (simp add: line_effect_def s p t type_names_distinct)
  show "cl_line_effect c (str ''d|Number|Number:5'') = c\<lparr>cl_Number := Some [(str ''Number'', str ''5'')]\<rparr>"
    by (simp add: cl_line_effect_def s p t type_names_distinct)
qed

lemma eval_info_line:
  "strip (str ''d|Info|a:1'') = str ''d|Info|a:1''"
  "parse_log_line (str ''d|Info|a:1'') = Some [(str ''a'', str ''1'')]"
  "line_type_of (str ''d|Info|a:1'') = Some (str ''Info'')"
  "split PIPE (str ''d|Info|a:1'') ! 0 = str ''d''"
  by (simp_all add: strip_def isspace_def str_def parse_log_line_def PIPE_def COLON_def
      parse_field_def split1_def line_type_of_def)

lemma eval_int_1: "ascii_int (strip (str ''1'')) = Some 1"
  by (simp add: ascii_int_def unsigned_def is_digit_def strip_def isspace_def str_def)

lemma eval_info_entries:
  "process_logs ascii_int [str ''d|Info|a:1'', str ''1'', str ''Telsa64''] (str ''f.wav'') =
     Inr (Some \<lparr>FileName = str ''f.wav'', Info = Some [(str ''a'', str ''1'')],
                Info_line = Some (str ''d|Info|a:1''),
                Number = Some [(str ''Number'', UNKNOWN)], CallWindow = None\<rparr>)"
  "cl_process_logs ascii_int [str ''d|Info|a:1'', str ''1'', str ''Telsa64''] (str ''f.wav'') =
     Inr (Some \<lparr>cl_FileName = str ''f.wav'',
                cl_Info = Some [(str ''a'', str ''1''), (str ''Date'', str ''d''),
                                (str ''RawLine'', str ''d|Info|a:1'')],
                cl_Number = Some [(str ''Number'', str ''null'')], cl_CallWindow = None\<rparr>)"
proof -
  have k: "str ''a'' \<noteq> str ''Date''" "str ''a'' \<noteq> str ''RawLine''"
    "str ''Date'' \<noteq> str ''RawLine''"
    by (simp_all add: str_def)
  show "process_logs ascii_int [str ''d|Info|a:1'', str ''1'', str ''Telsa64''] (str ''f.wav'') =
     Inr (Some \<lparr>FileName = str ''f.wav'', Info = Some [(str ''a'', str ''1'')],
                Info_line = Some (str ''d|Info|a:1''),
                Number = Some [(str ''Number'', UNKNOWN)], CallWindow = None\<rparr>)"
    by (simp add: process_logs_eq eval_strip_sentinel eval_int_1 py_slice_def slice_bound_def
        assemble_eq line_effect_def eval_info_line new_entry_def default_number_def)
  show "cl_process_logs ascii_int [str ''d|Info|a:1'', str ''1'', str ''Telsa64''] (str ''f.wav'') =
     Inr (Some \<lparr>cl_FileName = str ''f.wav'',
                cl_Info = Some [(str ''a'', str ''1''), (str ''Date'', str ''d''),
                                (str ''RawLine'', str ''d|Info|a:1'')],
                cl_Number = Some [(str ''Number'', str ''null'')], cl_CallWindow = None\<rparr>)"
    by (simp add: cl_process_logs_eq eval_strip_sentinel eval_int_1 py_slice_def slice_bound_def
        cl_assemble_eq cl_line_effect_def eval_info_line cl_new_entry_def cl_default_number_def k)
qed

section \<open>The field parser\<close>

lemma first_colon_split:
  "COLON \<in> set field \<Longrightarrow>
     field = key_of field @ COLON # value_of field \<and> COLON \<notin> set (key_of field)"
proof -
  assume c: "COLON \<in> set field"
  then have ne: "dropWhile (\<lambda>c. c \<noteq> COLON) field \<noteq> []"
    by simp
  then have "hd (dropWhile (\<lambda>c. c \<noteq> COLON) field) = COLON"
    using hd_dropWhile [of "\<lambda>c. c \<noteq> COLON" field] by simp
  then have "dropWhile (\<lambda>c. c \<noteq> COLON) field = COLON # value_of field"
    using ne by (cases "dropWhile (\<lambda>c. c \<noteq> COLON) field") (simp_all add: value_of_def)
  then have "field = key_of field @ COLON # value_of field"
    using takeWhile_dropWhile_id [of "\<lambda>c. c \<noteq> COLON" field] by (simp add: key_of_def)
  moreover have "COLON \<notin> set (key_of field)"
    by (auto simp: key_of_def dest: set_takeWhileD)
  ultimately show ?thesis by simp
qed

text \<open>
  Claim C6. \<open>parse_log_line\<close> returns \<open>None\<close> exactly when splitting the line on
  \<open>|\<close> gives fewer than two pieces. Otherwise it returns a dictionary with distinct keys
  in which a key has the value of the last piece, among the pieces from index 2 on that
  contain a colon, whose text before its first colon is that key; the value is the text
  after that first colon, and pieces without a colon contribute nothing. The line of the
  specification's example parses to \<open>{"Number": "123", "Call_Type": "voice_call"}\<close>.
\<close>

theorem parse_log_line_fields:
  "(parse_log_line line = None \<longleftrightarrow> length (split PIPE line) < 2)
   \<and> (2 \<le> length (split PIPE line) \<longrightarrow>
        (\<exists>parsed. parse_log_line line = Some parsed \<and> distinct (map fst parsed)
           \<and> map_of parsed = map_of (rev (spec_fields line))))
   \<and> parse_log_line (str ''2024/01/01 10:00:00|Info|Number:123|Call_Type:voice_call'')
       = Some [(str ''Number'', str ''123''), (str ''Call_Type'', str ''voice_call'')]"
proof (intro conjI impI)
  show "parse_log_line line = None \<longleftrightarrow> length (split PIPE line) < 2"
    by (simp add: parse_log_line_eq length_split_less_2)
next
  assume "2 \<le> length (split PIPE line)"
  then have "PIPE \<in> set line"
    using length_split_less_2 [of PIPE line] by simp
  then have "parse_log_line line = Some (store_fields [] (spec_fields line))"
    by (simp add: parse_log_line_eq)
  moreover have "distinct (map fst (store_fields [] (spec_fields line)))"
    by (rule distinct_store_fields) simp
  moreover have "map_of (store_fields [] (spec_fields line)) = map_of (rev (spec_fields line))"
    by (simp add: map_of_store_fields)
  ultimately show "\<exists>parsed. parse_log_line line = Some parsed \<and> distinct (map fst parsed)
           \<and> map_of parsed = map_of (rev (spec_fields line))"
    by simp
next
  show "parse_log_line (str ''2024/01/01 10:00:00|Info|Number:123|Call_Type:voice_call'')
       = Some [(str ''Number'', str ''123''), (str ''Call_Type'', str ''voice_call'')]"
    by (simp add: parse_log_line_def str_def PIPE_def COLON_def parse_field_def split1_def)
qed

theorem parse_log_line_fields_witness:
  "2 \<le> length (split PIPE (str ''d|Info|a:1:2|x|a:3''))
   \<and> (\<exists>parsed. parse_log_line (str ''d|Info|a:1:2|x|a:3'') = Some parsed
         \<and> distinct (map fst parsed)
         \<and> map_of parsed = map_of (rev (spec_fields (str ''d|Info|a:1:2|x|a:3''))))"
proof -
  have h: "2 \<le> length (split PIPE (str ''d|Info|a:1:2|x|a:3''))"
    by (simp add: str_def PIPE_def)
  show ?thesis
    using h parse_log_line_fields [of "str ''d|Info|a:1:2|x|a:3''"] by blast
qed

section \<open>The record assembler\<close>

text \<open>
  Claim C4. Every assembled entry has a number, and when no line of the window has the
  discriminator \<open>Number\<close> that number is the dictionary with the single key \<open>Number\<close>
  mapped to the unknown marker (the Persian word in app.py, the string \<open>null\<close> in
  call_logs.py).
\<close>

theorem number_defaults_to_sentinel:
  "(\<exists>e m. assemble window file_name = Inr (Some e) \<and> Number e = Some m
      \<and> ((\<forall>l\<in>set window. line_type_of l \<noteq> Some (str ''Number''))
            \<longrightarrow> m = [(str ''Number'', UNKNOWN)]))
   \<and> (\<exists>e m. cl_assemble window file_name = Inr (Some e) \<and> cl_Number e = Some m
      \<and> ((\<forall>l\<in>set window. line_type_of l \<noteq> Some (str ''Number''))
            \<longrightarrow> m = [(str ''Number'', str ''null'')]))"
proof (intro conjI)
  let ?e = "foldl line_effect (new_entry file_name) window"
  obtain m where m: "Number (default_number ?e) = Some m"
    by (cases "Number ?e") (simp_all add: default_number_fields)
  have "(\<forall>l\<in>set window. line_type_of l \<noteq> Some (str ''Number'')) \<longrightarrow> m = [(str ''Number'', UNKNOWN)]"
  proof
    assume "\<forall>l\<in>set window. line_type_of l \<noteq> Some (str ''Number'')"
    then have "\<forall>x\<in>set window. \<not> sets_field (str ''Number'') x"
      by (simp add: not_Number_type)
    then have "Number ?e = None"
      by (simp add: foldl_Number_unchanged new_entry_def)
    with m show "m = [(str ''Number'', UNKNOWN)]"
      by (simp add: default_number_fields)
  qed
  with m show "\<exists>e m. assemble window file_name = Inr (Some e) \<and> Number e = Some m
      \<and> ((\<forall>l\<in>set window. line_type_of l \<noteq> Some (str ''Number''))
            \<longrightarrow> m = [(str ''Number'', UNKNOWN)])"
    unfolding assemble_eq by blast
next
  let ?e = "foldl cl_line_effect (cl_new_entry file_name) window"
  obtain m where m: "cl_Number (cl_default_number ?e) = Some m"
    by (cases "cl_Number ?e") (simp_all add: cl_default_number_fields)
  have "(\<forall>l\<in>set window. line_type_of l \<noteq> Some (str ''Number'')) \<longrightarrow> m = [(str ''Number'', str ''null'')]"
  proof
    assume "\<forall>l\<in>set window. line_type_of l \<noteq> Some (str ''Number'')"
    then have "\<forall>x\<in>set window. \<not> sets_field (str ''Number'') x"
      by (simp add: not_Number_type)
    then have "cl_Number ?e = None"
      by (simp add: cl_foldl_Number_unchanged cl_new_entry_def)
    with m show "m = [(str ''Number'', str ''null'')]"
      by (simp add: cl_default_number_fields)
  qed
  with m show "\<exists>e m. cl_assemble window file_name = Inr (Some e) \<and> cl_Number e = Some m
      \<and> ((\<forall>l\<in>set window. line_type_of l \<noteq> Some (str ''Number''))
            \<longrightarrow> m = [(str ''Number'', str ''null'')])"
    unfolding cl_assemble_eq by blast
qed

theorem number_defaults_to_sentinel_witness:
  "line_type_of (str ''d|Info|a:1'') \<noteq> Some (str ''Number'')
   \<and> (\<exists>e. assemble [str ''d|Info|a:1''] (str ''f.wav'') = Inr (Some e)
          \<and> Number e = Some [(str ''Number'', UNKNOWN)])
   \<and> (\<exists>e. cl_assemble [str ''d|Info|a:1''] (str ''f.wav'') = Inr (Some e)
          \<and> cl_Number e = Some [(str ''Number'', str ''null'')])"
proof -
  have h: "line_type_of (str ''d|Info|a:1'') \<noteq> Some (str ''Number'')"
    by (simp add: line_type_of_def strip_def isspace_def str_def PIPE_def)
  then have b: "\<forall>l\<in>set [str ''d|Info|a:1'']. line_type_of l \<noteq> Some (str ''Number'')"
    by simp
  show ?thesis
    using h b number_defaults_to_sentinel [of "[str ''d|Info|a:1'']" "str ''f.wav''"]
    by blast
qed

text \<open>
  Claim C5, as amended. A window line leaves the entry unchanged when its parse is
  absent or is the empty dictionary (the test is \<open>if not parsed\<close>); a line whose
  discriminator is \<open>Info\<close>, \<open>Number\<close> or \<open>CallWindow\<close> and whose parse has at least one
  field sets the corresponding field of the entry. So a typed line with two or more
  pieces and no \<open>key:value\<close> field is skipped: the field is not set to an empty
  dictionary.
\<close>

theorem empty_parse_is_skipped:
  "(parse_log_line (strip raw) = None \<or> parse_log_line (strip raw) = Some [] \<longrightarrow>
      process_logs_body e raw = Inr e \<and> cl_process_logs_body c raw = Inr c)
   \<and> (sets_field (str ''Info'') raw \<longrightarrow>
      process_logs_body e raw =
        Inr (e\<lparr>Info := parse_log_line (strip raw), Info_line := Some (strip raw)\<rparr>)
      \<and> cl_process_logs_body c raw =
        Inr (c\<lparr>cl_Info := map_option
               (\<lambda>parsed. AList.update (str ''RawLine'') (strip raw)
                  (AList.update (str ''Date'') (split PIPE (strip raw) ! 0) parsed))
               (parse_log_line (strip raw))\<rparr>))
   \<and> (sets_field (str ''Number'') raw \<longrightarrow>
      process_logs_body e raw = Inr (e\<lparr>Number := parse_log_line (strip raw)\<rparr>)
      \<and> cl_process_logs_body c raw = Inr (c\<lparr>cl_Number := parse_log_line (strip raw)\<rparr>))
   \<and> (sets_field (str ''CallWindow'') raw \<longrightarrow>
      process_logs_body e raw = Inr (e\<lparr>CallWindow := parse_log_line (strip raw)\<rparr>)
      \<and> cl_process_logs_body c raw = Inr (c\<lparr>cl_CallWindow := parse_log_line (strip raw)\<rparr>))"
proof (intro conjI impI)
  assume "parse_log_line (strip raw) = None \<or> parse_log_line (strip raw) = Some []"
  then show "process_logs_body e raw = Inr e" "cl_process_logs_body c raw = Inr c"
    by (simp_all add: process_logs_body_eq cl_process_logs_body_eq line_effect_skip
        cl_line_effect_skip)
next
  assume "sets_field (str ''Info'') raw"
  then show "process_logs_body e raw =
        Inr (e\<lparr>Info := parse_log_line (strip raw), Info_line := Some (strip raw)\<rparr>)"
    "cl_process_logs_body c raw =
        Inr (c\<lparr>cl_Info := map_option
               (\<lambda>parsed. AList.update (str ''RawLine'') (strip raw)
                  (AList.update (str ''Date'') (split PIPE (strip raw) ! 0) parsed))
               (parse_log_line (strip raw))\<rparr>)"
    by (auto simp: process_logs_body_eq cl_process_logs_body_eq line_effect_def cl_line_effect_def
        sets_field_def split: option.splits)
next
  assume "sets_field (str ''Number'') raw"
  then show "process_logs_body e raw = Inr (e\<lparr>Number := parse_log_line (strip raw)\<rparr>)"
    "cl_process_logs_body c raw = Inr (c\<lparr>cl_Number := parse_log_line (strip raw)\<rparr>)"
    by (auto simp: process_logs_body_eq cl_process_logs_body_eq line_effect_def cl_line_effect_def
        sets_field_def type_names_distinct split: option.splits)
next
  assume "sets_field (str ''CallWindow'') raw"
  then show "process_logs_body e raw = Inr (e\<lparr>CallWindow := parse_log_line (strip raw)\<rparr>)"
    "cl_process_logs_body c raw = Inr (c\<lparr>cl_CallWindow := parse_log_line (strip raw)\<rparr>)"
    by (auto simp: process_logs_body_eq cl_process_logs_body_eq line_effect_def cl_line_effect_def
        sets_field_def type_names_distinct split: option.splits)
qed

theorem empty_parse_is_skipped_witness:
  "parse_log_line (strip (str ''d|Info'')) = Some []
   \<and> process_logs_body (new_entry (str ''f.wav'')) (str ''d|Info'') = Inr (new_entry (str ''f.wav''))
   \<and> sets_field (str ''Number'') (str ''d|Number|Number:5'')
   \<and> process_logs_body (new_entry (str ''f.wav'')) (str ''d|Number|Number:5'')
       = Inr (new_entry (str ''f.wav'')\<lparr>Number := Some [(str ''Number'', str ''5'')]\<rparr>)"
proof -
  have s: "strip (str ''d|Info'') = str ''d|Info''"
    by (simp add: strip_def isspace_def str_def)
  have p: "parse_log_line (strip (str ''d|Info'')) = Some []"
    unfolding s by (simp add: parse_log_line_def str_def PIPE_def)
  have s2: "strip (str ''d|Number|Number:5'') = str ''d|Number|Number:5''"
    by (simp add: strip_def isspace_def str_def)
  have p2: "parse_log_line (strip (str ''d|Number|Number:5'')) = Some [(str ''Number'', str ''5'')]"
    unfolding s2
    by (simp add: parse_log_line_def str_def PIPE_def COLON_def parse_field_def split1_def)
  have t2: "line_type_of (str ''d|Number|Number:5'') = Some (str ''Number'')"
    by (simp add: line_type_of_def strip_def isspace_def str_def PIPE_def)
  have f: "sets_field (str ''Number'') (str ''d|Number|Number:5'')"
    by (simp add: sets_field_def t2 p2)
  show ?thesis
    using p f p2
      empty_parse_is_skipped [of "str ''d|Info''" "new_entry (str ''f.wav'')" "cl_new_entry (str ''f.wav'')"]
      empty_parse_is_skipped [of "str ''d|Number|Number:5''" "new_entry (str ''f.wav'')" "cl_new_entry (str ''f.wav'')"]
    by simp
qed

text \<open>
  The claim as stated fails on the line \<open>d|Info\<close>: it has two pieces and the
  discriminator \<open>Info\<close>, its parse is the empty dictionary and not \<open>None\<close>, and both loop
  bodies leave the entry as it was, with \<open>Info\<close> still \<open>None\<close>.
\<close>

theorem empty_info_line_counterexample:
  "length (split PIPE (strip (str ''d|Info''))) = 2
   \<and> line_type_of (str ''d|Info'') = Some (str ''Info'')
   \<and> parse_log_line (strip (str ''d|Info'')) = Some []
   \<and> process_logs_body (new_entry (str ''f.wav'')) (str ''d|Info'') = Inr (new_entry (str ''f.wav''))
   \<and> Info (new_entry (str ''f.wav'')) \<noteq> Some []
   \<and> cl_process_logs_body (cl_new_entry (str ''f.wav'')) (str ''d|Info'')
        = Inr (cl_new_entry (str ''f.wav''))
   \<and> cl_Info (cl_new_entry (str ''f.wav'')) \<noteq> Some []"
proof -
  have s: "strip (str ''d|Info'') = str ''d|Info''"
    by (simp add: strip_def isspace_def str_def)
  have p: "parse_log_line (str ''d|Info'') = Some []"
    by (simp add: parse_log_line_def str_def PIPE_def)
  have l: "length (split PIPE (str ''d|Info'')) = 2"
    by (simp add: str_def PIPE_def)
  have t: "line_type_of (str ''d|Info'') = Some (str ''Info'')"
    by (simp add: line_type_of_def strip_def isspace_def str_def PIPE_def)
  show ?thesis
    by (simp add: s p l t process_logs_body_eq cl_process_logs_body_eq line_effect_def
        cl_line_effect_def new_entry_def cl_new_entry_def)
qed

text \<open>
  Claim C9, as amended. When a window has several lines of one record type (\<open>Info\<close>,
  \<open>Number\<close> or \<open>CallWindow\<close>), the entry keeps the dictionary of the last of them that
  has at least one \<open>key:value\<close> field: if the line \<open>l\<close> sets the field and no later line
  of the window does, the field holds the parse of \<open>l\<close> whatever came before it (in
  call_logs.py the \<open>Info\<close> dictionary also gets its \<open>Date\<close> and \<open>RawLine\<close> entries).
\<close>

theorem last_line_with_fields_wins:
  "sets_field name l \<and> (\<forall>x\<in>set post. \<not> sets_field name x) \<longrightarrow>
     (\<exists>e. assemble (pre @ l # post) file_name = Inr (Some e)
        \<and> (name = str ''Info'' \<longrightarrow>
              Info e = parse_log_line (strip l) \<and> Info_line e = Some (strip l))
        \<and> (name = str ''Number'' \<longrightarrow> Number e = parse_log_line (strip l))
        \<and> (name = str ''CallWindow'' \<longrightarrow> CallWindow e = parse_log_line (strip l)))
     \<and> (\<exists>c. cl_assemble (pre @ l # post) file_name = Inr (Some c)
        \<and> (name = str ''Info'' \<longrightarrow>
              cl_Info c = map_option
                (\<lambda>parsed. AList.update (str ''RawLine'') (strip l)
                   (AList.update (str ''Date'') (split PIPE (strip l) ! 0) parsed))
                (parse_log_line (strip l)))
        \<and> (name = str ''Number'' \<longrightarrow> cl_Number c = parse_log_line (strip l))
        \<and> (name = str ''CallWindow'' \<longrightarrow> cl_CallWindow c = parse_log_line (strip l)))"
proof (intro impI, elim conjE)
  assume l: "sets_field name l" and post: "\<forall>x\<in>set post. \<not> sets_field name x"
  from l obtain m where m: "parse_log_line (strip l) = Some m"
    by (auto simp: sets_field_def split: option.splits)
  let ?a = "foldl line_effect (new_entry file_name) pre"
  let ?e = "foldl line_effect (line_effect ?a l) post"
  have app: "assemble (pre @ l # post) file_name = Inr (Some (default_number ?e))"
    by (simp add: assemble_eq)
  have i: "name = str ''Info'' \<longrightarrow>
      Info (default_number ?e) = parse_log_line (strip l)
      \<and> Info_line (default_number ?e) = Some (strip l)"
  proof
    assume eq: "name = str ''Info''"
    have "\<forall>x\<in>set post. \<not> sets_field (str ''Info'') x"
      using post unfolding eq .
    then have "Info ?e = Info (line_effect ?a l) \<and> Info_line ?e = Info_line (line_effect ?a l)"
      by (rule foldl_Info_unchanged)
    moreover have "sets_field (str ''Info'') l"
      using l unfolding eq .
    ultimately show "Info (default_number ?e) = parse_log_line (strip l)
      \<and> Info_line (default_number ?e) = Some (strip l)"
      by (simp add: default_number_fields line_effect_Info line_effect_Info_line)
  qed
  have n: "name = str ''Number'' \<longrightarrow> Number (default_number ?e) = parse_log_line (strip l)"
  proof
    assume eq: "name = str ''Number''"
    have "\<forall>x\<in>set post. \<not> sets_field (str ''Number'') x"
      using post unfolding eq .
    then have "Number ?e = Number (line_effect ?a l)"
      by (rule foldl_Number_unchanged)
    moreover have "sets_field (str ''Number'') l"
      using l unfolding eq .
    ultimately show "Number (default_number ?e) = parse_log_line (strip l)"
      using m by (simp add: default_number_fields line_effect_Number)
  qed
  have w: "name = str ''CallWindow'' \<longrightarrow> CallWindow (default_number ?e) = parse_log_line (strip l)"
  proof
    assume eq: "name = str ''CallWindow''"
    have "\<forall>x\<in>set post. \<not> sets_field (str ''CallWindow'') x"
      using post unfolding eq .
    then have "CallWindow ?e = CallWindow (line_effect ?a l)"
      by (rule foldl_CallWindow_unchanged)
    moreover have "sets_field (str ''CallWindow'') l"
      using l unfolding eq .
    ultimately show "CallWindow (default_number ?e) = parse_log_line (strip l)"
      by (simp add: default_number_fields line_effect_CallWindow)
  qed
  let ?b = "foldl cl_line_effect (cl_new_entry file_name) pre"
  let ?c = "foldl cl_line_effect (cl_line_effect ?b l) post"
  have capp: "cl_assemble (pre @ l # post) file_name = Inr (Some (cl_default_number ?c))"
    by (simp add: cl_assemble_eq)
  have ci: "name = str ''Info'' \<longrightarrow>
      cl_Info (cl_default_number ?c) = map_option
                (\<lambda>parsed. AList.update (str ''RawLine'') (strip l)
                   (AList.update (str ''Date'') (split PIPE (strip l) ! 0) parsed))
                (parse_log_line (strip l))"
  proof
    assume eq: "name = str ''Info''"
    have "\<forall>x\<in>set post. \<not> sets_field (str ''Info'') x"
      using post unfolding eq .
    then have "cl_Info ?c = cl_Info (cl_line_effect ?b l)"
      by (rule cl_foldl_Info_unchanged)
    moreover have "sets_field (str ''Info'') l"
      using l unfolding eq .
    ultimately show "cl_Info (cl_default_number ?c) = map_option
                (\<lambda>parsed. AList.update (str ''RawLine'') (strip l)
                   (AList.update (str ''Date'') (split PIPE (strip l) ! 0) parsed))
                (parse_log_line (strip l))"
      by (simp add: cl_default_number_fields cl_line_effect_Info)
  qed
  have cn: "name = str ''Number'' \<longrightarrow> cl_Number (cl_default_number ?c) = parse_log_line (strip l)"
  proof
    assume eq: "name = str ''Number''"
    have "\<forall>x\<in>set post. \<not> sets_field (str ''Number'') x"
      using post unfolding eq .
    then have "cl_Number ?c = cl_Number (cl_line_effect ?b l)"
      by (rule cl_foldl_Number_unchanged)
    moreover have "sets_field (str ''Number'') l"
      using l unfolding eq .
    ultimately show "cl_Number (cl_default_number ?c) = parse_log_line (strip l)"
      using m by (simp add: cl_default_number_fields cl_line_effect_Number)
  qed
  have cw: "name = str ''CallWindow'' \<longrightarrow>
      cl_CallWindow (cl_default_number ?c) = parse_log_line (strip l)"
  proof
    assume eq: "name = str ''CallWindow''"
    have "\<forall>x\<in>set post. \<not> sets_field (str ''CallWindow'') x"
      using post unfolding eq .
    then have "cl_CallWindow ?c = cl_CallWindow (cl_line_effect ?b l)"
      by (rule cl_foldl_CallWindow_unchanged)
    moreover have "sets_field (str ''CallWindow'') l"
      using l unfolding eq .
    ultimately show "cl_CallWindow (cl_default_number ?c) = parse_log_line (strip l)"
      by (simp add: cl_default_number_fields cl_line_effect_CallWindow)
  qed
  show "(\<exists>e. assemble (pre @ l # post) file_name = Inr (Some e)
        \<and> (name = str ''Info'' \<longrightarrow>
              Info e = parse_log_line (strip l) \<and> Info_line e = Some (strip l))
        \<and> (name = str ''Number'' \<longrightarrow> Number e = parse_log_line (strip l))
        \<and> (name = str ''CallWindow'' \<longrightarrow> CallWindow e = parse_log_line (strip l)))
     \<and> (\<exists>c. cl_assemble (pre @ l # post) file_name = Inr (Some c)
        \<and> (name = str ''Info'' \<longrightarrow>
              cl_Info c = map_option
                (\<lambda>parsed. AList.update (str ''RawLine'') (strip l)
                   (AList.update (str ''Date'') (split PIPE (strip l) ! 0) parsed))
                (parse_log_line (strip l)))
        \<and> (name = str ''Number'' \<longrightarrow> cl_Number c = parse_log_line (strip l))
        \<and> (name = str ''CallWindow'' \<longrightarrow> cl_CallWindow c = parse_log_line (strip l)))"
    unfolding app capp using i n w ci cn cw by blast
qed

theorem last_line_with_fields_wins_witness:
  "sets_field (str ''Number'') (str ''d|Number|Number:7'')
   \<and> (\<exists>e. assemble ([str ''d|Number|Number:5''] @ str ''d|Number|Number:7'' # [str ''d|Number''])
             (str ''f.wav'') = Inr (Some e)
          \<and> Number e = Some [(str ''Number'', str ''7'')])
   \<and> (\<exists>c. cl_assemble ([str ''d|Number|Number:5''] @ str ''d|Number|Number:7'' # [str ''d|Number''])
             (str ''f.wav'') = Inr (Some c)
          \<and> cl_Number c = Some [(str ''Number'', str ''7'')])"
proof -
  have s: "strip (str ''d|Number|Number:7'') = str ''d|Number|Number:7''"
    by (simp add: strip_def isspace_def str_def)
  have p: "parse_log_line (strip (str ''d|Number|Number:7'')) = Some [(str ''Number'', str ''7'')]"
    unfolding s
    by (simp add: parse_log_line_def str_def PIPE_def COLON_def parse_field_def split1_def)
  have t: "line_type_of (str ''d|Number|Number:7'') = Some (str ''Number'')"
    by (simp add: line_type_of_def strip_def isspace_def str_def PIPE_def)
  have f: "sets_field (str ''Number'') (str ''d|Number|Number:7'')"
    by (simp add: sets_field_def t p)
  have s0: "strip (str ''d|Number'') = str ''d|Number''"
    by (simp add: strip_def isspace_def str_def)
  have p0: "parse_log_line (strip (str ''d|Number'')) = Some []"
    unfolding s0 by (simp add: parse_log_line_def str_def PIPE_def)
  have g: "\<forall>x\<in>set [str ''d|Number'']. \<not> sets_field (str ''Number'') x"
    by (simp add: sets_field_def p0)
  show ?thesis
    using f g p
      last_line_with_fields_wins [of "str ''Number''" "str ''d|Number|Number:7''"
        "[str ''d|Number'']" "[str ''d|Number|Number:5'']" "str ''f.wav''"]
    by (simp add: type_names_distinct)
qed

text \<open>
  The claim as stated fails on the window \<open>d|Info|a:1\<close>, \<open>d|Info\<close>: the last line of
  type \<open>Info\<close> has the empty dictionary as its parse, and the entry keeps the dictionary
  of the first line.
\<close>

theorem last_info_line_counterexample:
  "line_type_of (str ''d|Info'') = Some (str ''Info'')
   \<and> parse_log_line (strip (str ''d|Info'')) = Some []
   \<and> parse_log_line (strip (str ''d|Info|a:1'')) = Some [(str ''a'', str ''1'')]
   \<and> assemble [str ''d|Info|a:1'', str ''d|Info''] (str ''f.wav'') =
       Inr (Some \<lparr>FileName = str ''f.wav'', Info = Some [(str ''a'', str ''1'')],
                  Info_line = Some (str ''d|Info|a:1''),
                  Number = Some [(str ''Number'', UNKNOWN)], CallWindow = None\<rparr>)"
proof -
  have s: "strip (str ''d|Info'') = str ''d|Info''"
    by (simp add: strip_def isspace_def str_def)
  have p: "parse_log_line (strip (str ''d|Info'')) = Some []"
    unfolding s by (simp add: parse_log_line_def str_def PIPE_def)
  have t: "line_type_of (str ''d|Info'') = Some (str ''Info'')"
    by (simp add: line_type_of_def strip_def isspace_def str_def PIPE_def)
  have s1: "strip (str ''d|Info|a:1'') = str ''d|Info|a:1''"
    by (simp add: strip_def isspace_def str_def)
  have p1: "parse_log_line (strip (str ''d|Info|a:1'')) = Some [(str ''a'', str ''1'')]"
    unfolding s1
    by (simp add: parse_log_line_def str_def PIPE_def COLON_def parse_field_def split1_def)
  have t1: "line_type_of (str ''d|Info|a:1'') = Some (str ''Info'')"
    by (simp add: line_type_of_def strip_def isspace_def str_def PIPE_def)
  have q: "parse_log_line (str ''d|Info'') = Some []"
    using p unfolding s .
  have q1: "parse_log_line (str ''d|Info|a:1'') = Some [(str ''a'', str ''1'')]"
    using p1 unfolding s1 .
  have "assemble [str ''d|Info|a:1'', str ''d|Info''] (str ''f.wav'') =
       Inr (Some \<lparr>FileName = str ''f.wav'', Info = Some [(str ''a'', str ''1'')],
                  Info_line = Some (str ''d|Info|a:1''),
                  Number = Some [(str ''Number'', UNKNOWN)], CallWindow = None\<rparr>)"
    by (simp add: assemble_eq line_effect_def q q1 t1 s s1 new_entry_def default_number_def)
  with p p1 t show ?thesis by simp
qed

section \<open>The trailer locator\<close>

text \<open>
  Claim C1, as amended. For a list of at least two lines whose last line, trimmed, is
  the sentinel and whose count line parses to the integer \<open>N\<close>: \<open>process_logs\<close> of app.py
  assembles the window \<open>lines[windowStart:windowEnd]\<close> with
  \<open>windowStart = max(0, (lastIndex - 1) - N)\<close> and \<open>windowEnd = lastIndex - 1\<close>, and always
  returns an entry, also when \<open>N\<close> exceeds the number of preceding lines.
  \<open>process_logs\<close> of call_logs.py assembles the same window when \<open>N\<close> does not exceed the
  number of preceding lines, and returns \<open>None\<close> when it does.
\<close>

theorem window_of_count:
  "2 \<le> length lines \<and> strip (last lines) = SENTINEL
     \<and> py_int (strip (lines ! (length lines - 2))) = Some N \<longrightarrow>
   (let lastIndex = int (length lines) - 1;
        windowStart = max 0 ((lastIndex - 1) - N);
        windowEnd = lastIndex - 1
    in process_logs py_int lines file_name = assemble (py_slice lines windowStart windowEnd) file_name
       \<and> py_slice lines windowStart windowEnd = drop (nat windowStart) (take (nat windowEnd) lines)
       \<and> (\<exists>e. process_logs py_int lines file_name = Inr (Some e))
       \<and> cl_process_logs py_int lines file_name =
           (if (lastIndex - 1) - N < 0 then Inr None
            else cl_assemble (py_slice lines windowStart windowEnd) file_name))"
proof (intro impI, elim conjE)
  assume len: "2 \<le> length lines" and sen: "strip (last lines) = SENTINEL"
    and cnt: "py_int (strip (lines ! (length lines - 2))) = Some N"
  let ?c = "int (length lines) - 2"
  let ?a = "max 0 (?c - N)"
  have c0: "0 \<le> ?c" using len by simp
  have app: "process_logs py_int lines file_name = assemble (py_slice lines ?a ?c) file_name"
    using len sen cnt by (simp add: process_logs_eq)
  have sl: "py_slice lines ?a ?c = drop (nat ?a) (take (nat ?c) lines)"
    using c0 by (intro py_slice_nonneg) simp_all
  have ex: "\<exists>e. process_logs py_int lines file_name = Inr (Some e)"
    unfolding app using assemble_shape [of "py_slice lines ?a ?c" file_name] by blast
  have cl: "cl_process_logs py_int lines file_name =
           (if ?c - N < 0 then Inr None else cl_assemble (py_slice lines ?a ?c) file_name)"
    using sen cnt by (simp add: cl_process_logs_eq [OF len] max_def)
  have e1: "int (length lines) - 1 - 1 = ?c" by simp
  show "let lastIndex = int (length lines) - 1;
        windowStart = max 0 ((lastIndex - 1) - N);
        windowEnd = lastIndex - 1
    in process_logs py_int lines file_name = assemble (py_slice lines windowStart windowEnd) file_name
       \<and> py_slice lines windowStart windowEnd = drop (nat windowStart) (take (nat windowEnd) lines)
       \<and> (\<exists>e. process_logs py_int lines file_name = Inr (Some e))
       \<and> cl_process_logs py_int lines file_name =
           (if (lastIndex - 1) - N < 0 then Inr None
            else cl_assemble (py_slice lines windowStart windowEnd) file_name)"
    unfolding Let_def e1 using app sl ex cl by simp
qed

theorem window_of_count_witness:
  "2 \<le> length [str ''a'', str ''d|Number|Number:5'', str ''1'', str ''Telsa64'']
   \<and> process_logs ascii_int [str ''a'', str ''d|Number|Number:5'', str ''1'', str ''Telsa64'']
        (str ''f.wav'') = assemble [str ''d|Number|Number:5''] (str ''f.wav'')
   \<and> cl_process_logs ascii_int [str ''a'', str ''d|Number|Number:5'', str ''1'', str ''Telsa64'']
        (str ''f.wav'') = cl_assemble [str ''d|Number|Number:5''] (str ''f.wav'')"
proof -
  let ?ls = "[str ''a'', str ''d|Number|Number:5'', str ''1'', str ''Telsa64'']"
  have i1: "ascii_int (strip (str ''1'')) = Some 1"
    by (simp add: ascii_int_def unsigned_def is_digit_def strip_def isspace_def str_def)
  have h: "2 \<le> length ?ls \<and> strip (last ?ls) = SENTINEL
     \<and> ascii_int (strip (?ls ! (length ?ls - 2))) = Some 1"
    by (simp add: eval_strip_sentinel i1)
  have sl: "py_slice ?ls 1 2 = [str ''d|Number|Number:5'']"
    by (simp add: py_slice_def slice_bound_def)
  show ?thesis
    using h sl window_of_count [of ?ls ascii_int 1 "str ''f.wav''"]
    by (simp add: Let_def)
qed

text \<open>
  The claim as stated fails for call_logs.py on one record line followed by the count
  \<open>3\<close> and the sentinel: app.py clamps the start to 0 and returns the entry, call_logs.py
  returns \<open>None\<close>.
\<close>

theorem count_exceeds_lines_counterexample:
  "ascii_int (strip ([str ''d|Number|Number:5'', str ''3'', str ''Telsa64''] ! 1)) = Some 3
   \<and> strip (last [str ''d|Number|Number:5'', str ''3'', str ''Telsa64'']) = SENTINEL
   \<and> process_logs ascii_int [str ''d|Number|Number:5'', str ''3'', str ''Telsa64''] (str ''f.wav'')
       = Inr (Some \<lparr>FileName = str ''f.wav'', Info = None, Info_line = None,
                     Number = Some [(str ''Number'', str ''5'')], CallWindow = None\<rparr>)
   \<and> cl_process_logs ascii_int [str ''d|Number|Number:5'', str ''3'', str ''Telsa64'']
        (str ''f.wav'') = Inr None"
proof -
  have a: "process_logs ascii_int [str ''d|Number|Number:5'', str ''3'', str ''Telsa64''] (str ''f.wav'')
       = Inr (Some \<lparr>FileName = str ''f.wav'', Info = None, Info_line = None,
                     Number = Some [(str ''Number'', str ''5'')], CallWindow = None\<rparr>)"
    by (simp add: process_logs_eq eval_strip_sentinel eval_int_3 py_slice_def slice_bound_def
        assemble_eq eval_number_line new_entry_def default_number_def)
  have b: "cl_process_logs ascii_int [str ''d|Number|Number:5'', str ''3'', str ''Telsa64'']
        (str ''f.wav'') = Inr None"
    by (simp add: cl_process_logs_eq eval_strip_sentinel eval_int_3)
  show ?thesis
    using a b by (simp add: eval_strip_sentinel eval_int_3)
qed

section \<open>The pipeline as a whole\<close>

text \<open>
  Claim C8. For every input with fewer than two lines, and for every input whose last
  line, trimmed, is not the sentinel \<open>Telsa64\<close>, \<open>process_logs\<close> returns \<open>None\<close> whatever
  the other lines are, and no exception escapes (the result is \<open>Inr\<close>). For
  call_logs.py, whose only test at the start is for the empty list, the one-line input
  that is the sentinel reaches \<open>int\<close> with the sentinel as its argument, so the
  statement uses that \<open>int\<close> rejects that string.
\<close>

theorem no_sentinel_no_record:
  "(length lines < 2 \<or> strip (last lines) \<noteq> SENTINEL) \<longrightarrow>
     process_logs py_int lines file_name = Inr None
     \<and> (py_int SENTINEL = None \<longrightarrow> cl_process_logs py_int lines file_name = Inr None)"
proof (intro impI conjI)
  assume h: "length lines < 2 \<or> strip (last lines) \<noteq> SENTINEL"
  then show "process_logs py_int lines file_name = Inr None"
    by (auto simp: process_logs_eq)
next
  assume h: "length lines < 2 \<or> strip (last lines) \<noteq> SENTINEL"
    and i: "py_int SENTINEL = None"
  show "cl_process_logs py_int lines file_name = Inr None"
  proof (cases "2 \<le> length lines")
    case True
    with h show ?thesis by (simp add: cl_process_logs_eq)
  next
    case False
    then consider "lines = []" | l where "lines = [l]"
      by (cases lines) (auto simp: Suc_le_eq)
    then show ?thesis
    proof cases
      case 1
      then show ?thesis by (simp add: cl_process_logs_def)
    next
      case 2
      then show ?thesis using i by (auto simp: cl_process_logs_single)
    qed
  qed
qed

theorem no_sentinel_no_record_witness:
  "strip (last [str ''d|Number|Number:5'', str ''1'', str ''Telsa65'']) \<noteq> SENTINEL
   \<and> process_logs ascii_int [str ''d|Number|Number:5'', str ''1'', str ''Telsa65''] (str ''f.wav'')
       = Inr None
   \<and> ascii_int SENTINEL = None
   \<and> cl_process_logs ascii_int [str ''d|Number|Number:5'', str ''1'', str ''Telsa65'']
        (str ''f.wav'') = Inr None
   \<and> length [str ''Telsa64''] < 2
   \<and> process_logs ascii_int [str ''Telsa64''] (str ''f.wav'') = Inr None
   \<and> cl_process_logs ascii_int [str ''Telsa64''] (str ''f.wav'') = Inr None"
proof -
  have a: "strip (last [str ''d|Number|Number:5'', str ''1'', str ''Telsa65'']) \<noteq> SENTINEL"
    by (simp add: strip_def isspace_def str_def SENTINEL_def)
  have b: "length [str ''Telsa64''] < 2" by simp
  show ?thesis
    using a b eval_int_sentinel
      no_sentinel_no_record [of "[str ''d|Number|Number:5'', str ''1'', str ''Telsa65'']" ascii_int
        "str ''f.wav''"]
      no_sentinel_no_record [of "[str ''Telsa64'']" ascii_int "str ''f.wav''"]
    by blast
qed

text \<open>
  Claim C10. For every list of lines and every file name, \<open>process_logs\<close> returns
  (it is a total function and its result is never an exception) either \<open>None\<close> or an
  entry whose file name is the given one and whose number is not \<open>None\<close>. When the count
  line parses to an integer \<open>N \<le> 0\<close> the window is empty and the entry holds only the
  file name and the default number.
\<close>

theorem process_logs_total:
  "(\<exists>r. process_logs py_int lines file_name = Inr r
       \<and> (case r of None \<Rightarrow> True | Some e \<Rightarrow> FileName e = file_name \<and> Number e \<noteq> None))
   \<and> (\<exists>r. cl_process_logs py_int lines file_name = Inr r
       \<and> (case r of None \<Rightarrow> True | Some e \<Rightarrow> cl_FileName e = file_name \<and> cl_Number e \<noteq> None))
   \<and> (2 \<le> length lines \<and> strip (last lines) = SENTINEL
        \<and> py_int (strip (lines ! (length lines - 2))) = Some N \<and> N \<le> 0 \<longrightarrow>
      process_logs py_int lines file_name =
        Inr (Some \<lparr>FileName = file_name, Info = None, Info_line = None,
                   Number = Some [(str ''Number'', UNKNOWN)], CallWindow = None\<rparr>)
      \<and> cl_process_logs py_int lines file_name =
        Inr (Some \<lparr>cl_FileName = file_name, cl_Info = None,
                   cl_Number = Some [(str ''Number'', str ''null'')], cl_CallWindow = None\<rparr>))"
proof (intro conjI impI)
  show "\<exists>r. process_logs py_int lines file_name = Inr r
       \<and> (case r of None \<Rightarrow> True | Some e \<Rightarrow> FileName e = file_name \<and> Number e \<noteq> None)"
  proof (cases "\<exists>w. process_logs py_int lines file_name = assemble w file_name")
    case True
    then obtain w where "process_logs py_int lines file_name = assemble w file_name" ..
    then show ?thesis using assemble_shape [of w file_name] by auto
  next
    case False
    then have "process_logs py_int lines file_name = Inr None"
      by (auto simp: process_logs_eq split: if_splits option.splits)
    then show ?thesis by simp
  qed
next
  show "\<exists>r. cl_process_logs py_int lines file_name = Inr r
       \<and> (case r of None \<Rightarrow> True | Some e \<Rightarrow> cl_FileName e = file_name \<and> cl_Number e \<noteq> None)"
  proof (cases "\<exists>w. cl_process_logs py_int lines file_name = cl_assemble w file_name")
    case True
    then obtain w where "cl_process_logs py_int lines file_name = cl_assemble w file_name" ..
    then show ?thesis using cl_assemble_shape [of w file_name] by auto
  next
    case False
    have "cl_process_logs py_int lines file_name = Inr None"
    proof (cases "2 \<le> length lines")
      case True
      with False show ?thesis
        by (auto simp: cl_process_logs_eq split: if_splits option.splits)
    next
      case nt: False
      then consider "lines = []" | l where "lines = [l]"
        by (cases lines) (auto simp: Suc_le_eq)
      then show ?thesis
      proof cases
        case 1
        then show ?thesis by (simp add: cl_process_logs_def)
      next
        case 2
        with False show ?thesis
          by (auto simp: cl_process_logs_single split: if_splits option.splits)
      qed
    qed
    then show ?thesis by simp
  qed
next
  assume h: "2 \<le> length lines \<and> strip (last lines) = SENTINEL
        \<and> py_int (strip (lines ! (length lines - 2))) = Some N \<and> N \<le> 0"
  let ?c = "int (length lines) - 2"
  have c0: "0 \<le> ?c" using h by simp
  have m: "max 0 (?c - N) = ?c - N" using h by simp
  have n0: "\<not> ?c - N < 0" using h by simp
  have "py_slice lines (?c - N) ?c = drop (nat (?c - N)) (take (nat ?c) lines)"
    using c0 h by (intro py_slice_nonneg) simp_all
  also have "\<dots> = []"
  proof -
    have "nat ?c \<le> nat (?c - N)" using h by arith
    then show ?thesis by simp
  qed
  finally have w: "py_slice lines (?c - N) ?c = []" .
  show "process_logs py_int lines file_name =
        Inr (Some \<lparr>FileName = file_name, Info = None, Info_line = None,
                   Number = Some [(str ''Number'', UNKNOWN)], CallWindow = None\<rparr>)"
    using h by (simp add: process_logs_eq m w assemble_Nil)
  show "cl_process_logs py_int lines file_name =
        Inr (Some \<lparr>cl_FileName = file_name, cl_Info = None,
                   cl_Number = Some [(str ''Number'', str ''null'')], cl_CallWindow = None\<rparr>)"
    using h n0 by (simp add: cl_process_logs_eq w cl_assemble_Nil)
qed

theorem process_logs_total_witness:
  "2 \<le> length [str ''d|Number|Number:5'', str ''0'', str ''Telsa64'']
   \<and> strip (last [str ''d|Number|Number:5'', str ''0'', str ''Telsa64'']) = SENTINEL
   \<and> ascii_int (strip ([str ''d|Number|Number:5'', str ''0'', str ''Telsa64''] ! 1)) = Some 0
   \<and> process_logs ascii_int [str ''d|Number|Number:5'', str ''0'', str ''Telsa64''] (str ''f.wav'') =
        Inr (Some \<lparr>FileName = str ''f.wav'', Info = None, Info_line = None,
                   Number = Some [(str ''Number'', UNKNOWN)], CallWindow = None\<rparr>)
   \<and> cl_process_logs ascii_int [str ''d|Number|Number:5'', str ''0'', str ''Telsa64''] (str ''f.wav'') =
        Inr (Some \<lparr>cl_FileName = str ''f.wav'', cl_Info = None,
                   cl_Number = Some [(str ''Number'', str ''null'')], cl_CallWindow = None\<rparr>)"
proof -
  let ?ls = "[str ''d|Number|Number:5'', str ''0'', str ''Telsa64'']"
  have h: "2 \<le> length ?ls \<and> strip (last ?ls) = SENTINEL
        \<and> ascii_int (strip (?ls ! (length ?ls - 2))) = Some 0 \<and> (0::int) \<le> 0"
    by (simp add: eval_strip_sentinel eval_int_0)
  show ?thesis
    using h process_logs_total [of ascii_int ?ls "str ''f.wav''" 0]
    by simp
qed

section \<open>The persisted document\<close>

text \<open>
  Claim C7, as amended. An entry returned by \<open>process_logs\<close> of app.py is written as an
  object with exactly the fields \<open>FileName\<close> (the given name, a string), \<open>Info\<close> (object
  or null), \<open>Info_line\<close> (string or null), \<open>Number\<close> (always an object) and \<open>CallWindow\<close>
  (object or null), and its \<open>Info\<close>, when present, is the parse of an \<open>Info\<close> line of the
  input, whose trimmed text is \<open>Info_line\<close>. An entry returned by \<open>process_logs\<close> of
  call_logs.py is written with the four fields \<open>FileName\<close>, \<open>Info\<close>, \<open>Number\<close>,
  \<open>CallWindow\<close> and no \<open>Info_line\<close>, and its \<open>Info\<close>, when present, is the parse of an
  \<open>Info\<close> line with the entries \<open>Date\<close> (the line's first piece) and \<open>RawLine\<close> (the
  trimmed line) stored into it.
\<close>

theorem entry_json_fields:
  "(process_logs py_int lines file_name = Inr (Some e) \<longrightarrow>
      (\<exists>info info_line number call_window.
         json_of_entry e = JObject [(str ''FileName'', JString file_name), (str ''Info'', info),
           (str ''Info_line'', info_line), (str ''Number'', JObject number),
           (str ''CallWindow'', call_window)]
         \<and> (info = JNull \<or> (\<exists>fs. info = JObject fs))
         \<and> (info_line = JNull \<or> (\<exists>t. info_line = JString t))
         \<and> (call_window = JNull \<or> (\<exists>fs. call_window = JObject fs)))
      \<and> (\<forall>m. Info e = Some m \<longrightarrow>
            (\<exists>l\<in>set lines. sets_field (str ''Info'') l \<and> parse_log_line (strip l) = Some m
               \<and> Info_line e = Some (strip l))))
   \<and> (cl_process_logs py_int lines file_name = Inr (Some c) \<longrightarrow>
      (\<exists>info number call_window.
         cl_json_of_entry c = JObject [(str ''FileName'', JString file_name), (str ''Info'', info),
           (str ''Number'', JObject number), (str ''CallWindow'', call_window)]
         \<and> (info = JNull \<or> (\<exists>fs. info = JObject fs))
         \<and> (call_window = JNull \<or> (\<exists>fs. call_window = JObject fs)))
      \<and> (\<forall>m. cl_Info c = Some m \<longrightarrow>
            (\<exists>l\<in>set lines. \<exists>parsed. sets_field (str ''Info'') l
               \<and> parse_log_line (strip l) = Some parsed
               \<and> m = AList.update (str ''RawLine'') (strip l)
                     (AList.update (str ''Date'') (split PIPE (strip l) ! 0) parsed))))"
proof (intro conjI impI)
  assume a: "process_logs py_int lines file_name = Inr (Some e)"
  then obtain w where w: "set w \<subseteq> set lines"
    and e: "e = default_number (foldl line_effect (new_entry file_name) w)"
    using process_logs_Some by blast
  have f: "FileName e = file_name"
    unfolding e by (simp add: default_number_fields foldl_FileName new_entry_def)
  have n: "Number e \<noteq> None"
    unfolding e by (simp add: default_number_fields split: option.splits)
  show "\<exists>info info_line number call_window.
         json_of_entry e = JObject [(str ''FileName'', JString file_name), (str ''Info'', info),
           (str ''Info_line'', info_line), (str ''Number'', JObject number),
           (str ''CallWindow'', call_window)]
         \<and> (info = JNull \<or> (\<exists>fs. info = JObject fs))
         \<and> (info_line = JNull \<or> (\<exists>t. info_line = JString t))
         \<and> (call_window = JNull \<or> (\<exists>fs. call_window = JObject fs))"
    using f n by (rule json_of_entry_shape)
  have "info_from (set lines) e"
    unfolding e using w by (rule entry_info_from)
  then show "\<forall>m. Info e = Some m \<longrightarrow>
            (\<exists>l\<in>set lines. sets_field (str ''Info'') l \<and> parse_log_line (strip l) = Some m
               \<and> Info_line e = Some (strip l))"
    unfolding info_from_def by auto
next
  assume a: "cl_process_logs py_int lines file_name = Inr (Some c)"
  then obtain w where w: "set w \<subseteq> set lines"
    and c: "c = cl_default_number (foldl cl_line_effect (cl_new_entry file_name) w)"
    using cl_process_logs_Some by blast
  have f: "cl_FileName c = file_name"
    unfolding c by (simp add: cl_default_number_fields cl_foldl_FileName cl_new_entry_def)
  have n: "cl_Number c \<noteq> None"
    unfolding c by (simp add: cl_default_number_fields split: option.splits)
  show "\<exists>info number call_window.
         cl_json_of_entry c = JObject [(str ''FileName'', JString file_name), (str ''Info'', info),
           (str ''Number'', JObject number), (str ''CallWindow'', call_window)]
         \<and> (info = JNull \<or> (\<exists>fs. info = JObject fs))
         \<and> (call_window = JNull \<or> (\<exists>fs. call_window = JObject fs))"
    using f n by (rule cl_json_of_entry_shape)
  have i: "cl_info_from (set lines) c"
    unfolding c using w by (rule cl_entry_info_from)
  show "\<forall>m. cl_Info c = Some m \<longrightarrow>
            (\<exists>l\<in>set lines. \<exists>parsed. sets_field (str ''Info'') l
               \<and> parse_log_line (strip l) = Some parsed
               \<and> m = AList.update (str ''RawLine'') (strip l)
                     (AList.update (str ''Date'') (split PIPE (strip l) ! 0) parsed))"
  proof (intro allI impI)
    fix m
    assume m: "cl_Info c = Some m"
    with i obtain l where l: "l \<in> set lines" "sets_field (str ''Info'') l"
      and eq: "Some m = map_option
           (\<lambda>parsed. AList.update (str ''RawLine'') (strip l)
              (AList.update (str ''Date'') (split PIPE (strip l) ! 0) parsed))
           (parse_log_line (strip l))"
      unfolding cl_info_from_def by auto
    from eq obtain parsed where "parse_log_line (strip l) = Some parsed"
      and "m = AList.update (str ''RawLine'') (strip l)
                     (AList.update (str ''Date'') (split PIPE (strip l) ! 0) parsed)"
      by (cases "parse_log_line (strip l)") auto
    with l show "\<exists>l\<in>set lines. \<exists>parsed. sets_field (str ''Info'') l
               \<and> parse_log_line (strip l) = Some parsed
               \<and> m = AList.update (str ''RawLine'') (strip l)
                     (AList.update (str ''Date'') (split PIPE (strip l) ! 0) parsed)"
      by blast
  qed
qed

theorem entry_json_fields_witness:
  "process_logs ascii_int [str ''d|Info|a:1'', str ''1'', str ''Telsa64''] (str ''f.wav'') =
     Inr (Some \<lparr>FileName = str ''f.wav'', Info = Some [(str ''a'', str ''1'')],
                Info_line = Some (str ''d|Info|a:1''),
                Number = Some [(str ''Number'', UNKNOWN)], CallWindow = None\<rparr>)
   \<and> (\<exists>info info_line number call_window.
         json_of_entry \<lparr>FileName = str ''f.wav'', Info = Some [(str ''a'', str ''1'')],
                Info_line = Some (str ''d|Info|a:1''),
                Number = Some [(str ''Number'', UNKNOWN)], CallWindow = None\<rparr>
           = JObject [(str ''FileName'', JString (str ''f.wav'')), (str ''Info'', info),
           (str ''Info_line'', info_line), (str ''Number'', JObject number),
           (str ''CallWindow'', call_window)])
   \<and> (\<exists>l. l \<in> set [str ''d|Info|a:1'', str ''1'', str ''Telsa64'']
          \<and> sets_field (str ''Info'') l
          \<and> parse_log_line (strip l) = Some [(str ''a'', str ''1'')])"
proof -
  let ?ls = "[str ''d|Info|a:1'', str ''1'', str ''Telsa64'']"
  let ?e = "\<lparr>FileName = str ''f.wav'', Info = Some [(str ''a'', str ''1'')],
                Info_line = Some (str ''d|Info|a:1''),
                Number = Some [(str ''Number'', UNKNOWN)], CallWindow = None\<rparr>"
  have h: "process_logs ascii_int ?ls (str ''f.wav'') = Inr (Some ?e)"
    by (rule eval_info_entries)
  have i: "Info ?e = Some [(str ''a'', str ''1'')]" by simp
  from entry_json_fields [of ascii_int ?ls "str ''f.wav''" ?e] h
  have j: "\<exists>info info_line number call_window.
         json_of_entry ?e = JObject [(str ''FileName'', JString (str ''f.wav'')), (str ''Info'', info),
           (str ''Info_line'', info_line), (str ''Number'', JObject number),
           (str ''CallWindow'', call_window)]"
    and k: "\<forall>m. Info ?e = Some m \<longrightarrow>
            (\<exists>l\<in>set ?ls. sets_field (str ''Info'') l \<and> parse_log_line (strip l) = Some m
               \<and> Info_line ?e = Some (strip l))"
    by blast+
  from k i have "\<exists>l\<in>set ?ls. sets_field (str ''Info'') l
      \<and> parse_log_line (strip l) = Some [(str ''a'', str ''1'')]"
    by blast
  then have "\<exists>l. l \<in> set ?ls \<and> sets_field (str ''Info'') l
      \<and> parse_log_line (strip l) = Some [(str ''a'', str ''1'')]"
    by blast
  with h j show ?thesis by blast
qed

text \<open>
  The claim as stated fails for call_logs.py on the lines \<open>d|Info|a:1\<close>, \<open>1\<close>,
  \<open>Telsa64\<close>: the document has no \<open>Info_line\<close> field, and \<open>Info\<close> holds \<open>Date\<close> and
  \<open>RawLine\<close> besides the one field \<open>a\<close> parsed from the line.
\<close>

theorem call_logs_entry_counterexample:
  "parse_log_line (strip (str ''d|Info|a:1'')) = Some [(str ''a'', str ''1'')]
   \<and> (\<exists>c. cl_process_logs ascii_int [str ''d|Info|a:1'', str ''1'', str ''Telsa64''] (str ''f.wav'')
            = Inr (Some c)
          \<and> cl_json_of_entry c =
              JObject [(str ''FileName'', JString (str ''f.wav'')),
                       (str ''Info'', JObject [(str ''a'', JString (str ''1'')),
                                               (str ''Date'', JString (str ''d'')),
                                               (str ''RawLine'', JString (str ''d|Info|a:1''))]),
                       (str ''Number'', JObject [(str ''Number'', JString (str ''null''))]),
                       (str ''CallWindow'', JNull)])"
  by (simp add: eval_info_entries eval_info_line cl_json_of_entry_def json_of_opt_dict_def
      json_of_dict_def)

section \<open>The record store writer\<close>

lemma save_to_json_returns: "fst (save_to_json e jf fault) = Inr ()"
  by (cases jf; cases fault) (simp_all add: save_to_json_def load_db_def write_db_def)

lemma cl_save_to_json_returns: "fst (cl_save_to_json c jf fault) = Inr ()"
  by (cases jf; cases fault) (simp_all add: cl_save_to_json_def load_db_def write_db_def)

text \<open>
  Claim C2, as amended. \<open>save_to_json\<close> of app.py is idempotent by file name: when an
  entry of the stored list has the file name of the new entry, the file is left as it
  is; so from a readable store with at most one entry of that name, saving two entries
  of that name one after the other (with the writes succeeding) leaves exactly one
  entry of that name. \<open>save_to_json\<close> of call_logs.py has no such test: on a readable
  store it always appends the entry.
\<close>

theorem append_idempotent:
  "(list_ex (\<lambda>x. FileName x = FileName e) db \<longrightarrow>
      save_to_json e (Holds db) fault = (Inr (), Holds db))
   \<and> (load_db jf = Inr db \<and> FileName e' = FileName e
        \<and> length (filter (\<lambda>x. FileName x = FileName e) db) \<le> 1 \<longrightarrow>
      (\<exists>db'. snd (save_to_json e' (snd (save_to_json e jf NoFault)) NoFault) = Holds db'
         \<and> length (filter (\<lambda>x. FileName x = FileName e) db') = 1))
   \<and> (load_db cjf = Inr cdb \<longrightarrow>
        cl_save_to_json c cjf NoFault = (Inr (), Holds (cdb @ [c])))"
proof (intro conjI impI)
  assume "list_ex (\<lambda>x. FileName x = FileName e) db"
  then show "save_to_json e (Holds db) fault = (Inr (), Holds db)"
    by (simp add: save_to_json_def load_db_def)
next
  assume h: "load_db jf = Inr db \<and> FileName e' = FileName e
        \<and> length (filter (\<lambda>x. FileName x = FileName e) db) \<le> 1"
  let ?P = "\<lambda>x. FileName x = FileName e"
  show "\<exists>db'. snd (save_to_json e' (snd (save_to_json e jf NoFault)) NoFault) = Holds db'
         \<and> length (filter ?P db') = 1"
  proof (cases "list_ex ?P db")
    case True
    then have "filter ?P db \<noteq> []"
      by (auto simp: list_ex_iff filter_empty_conv)
    then have one: "length (filter ?P db) = 1"
      using h by (cases "filter ?P db") auto
    from h have "jf = Holds db \<or> (jf = Missing \<and> db = [])"
      by (cases jf) (auto simp: load_db_def)
    with True have fh: "jf = Holds db" by auto
    have s1: "save_to_json e (Holds db) NoFault = (Inr (), Holds db)"
      using True by (simp add: save_to_json_def load_db_def)
    have s2: "save_to_json e' (Holds db) NoFault = (Inr (), Holds db)"
      using h True by (simp add: save_to_json_def load_db_def)
    show ?thesis
      unfolding fh s1 snd_conv s2 using one by simp
  next
    case False
    then have none: "filter ?P db = []"
      by (auto simp: list_ex_iff filter_empty_conv)
    have s1: "save_to_json e jf NoFault = (Inr (), Holds (db @ [e]))"
      using h False by (simp add: save_to_json_def write_db_def)
    have s2: "save_to_json e' (Holds (db @ [e])) NoFault = (Inr (), Holds (db @ [e]))"
      using h by (simp add: save_to_json_def load_db_def)
    show ?thesis by (simp add: s1 s2 none)
  qed
next
  assume "load_db cjf = Inr cdb"
  then show "cl_save_to_json c cjf NoFault = (Inr (), Holds (cdb @ [c]))"
    by (simp add: cl_save_to_json_def write_db_def)
qed

theorem append_idempotent_witness:
  "list_ex (\<lambda>x. FileName x = FileName (new_entry (str ''f.wav''))) [new_entry (str ''f.wav'')]
   \<and> save_to_json (new_entry (str ''f.wav'')) (Holds [new_entry (str ''f.wav'')]) NoFault
       = (Inr (), Holds [new_entry (str ''f.wav'')])
   \<and> load_db (Missing :: db_entry json_file) = Inr []
   \<and> (\<exists>db'. snd (save_to_json (new_entry (str ''f.wav''))
                 (snd (save_to_json (new_entry (str ''f.wav'')) Missing NoFault)) NoFault) = Holds db'
         \<and> length (filter (\<lambda>x. FileName x = FileName (new_entry (str ''f.wav''))) db') = 1)
   \<and> cl_save_to_json (cl_new_entry (str ''f.wav'')) Missing NoFault
       = (Inr (), Holds ([] @ [cl_new_entry (str ''f.wav'')]))"
proof -
  let ?e = "new_entry (str ''f.wav'')"
  have a: "list_ex (\<lambda>x. FileName x = FileName ?e) [?e]" by simp
  have b: "load_db (Missing :: db_entry json_file) = Inr []" by (simp add: load_db_def)
  have c: "load_db (Missing :: cl_entry json_file) = Inr []" by (simp add: load_db_def)
  have d: "load_db (Missing :: db_entry json_file) = Inr [] \<and> FileName ?e = FileName ?e
        \<and> length (filter (\<lambda>x. FileName x = FileName ?e) []) \<le> 1"
    by (simp add: load_db_def)
  show ?thesis
    using a b c d
      append_idempotent [where e = ?e and db = "[?e]" and fault = NoFault and jf = Missing
        and e' = ?e and cjf = Missing and cdb = "[]" and c = "cl_new_entry (str ''f.wav'')"]
      append_idempotent [where e = ?e and db = "[]" and fault = NoFault and jf = Missing
        and e' = ?e and cjf = Missing and cdb = "[]" and c = "cl_new_entry (str ''f.wav'')"]
    by blast
qed

text \<open>
  The claim as stated fails for call_logs.py: saving an entry whose file name is
  already stored leaves two entries of that name.
\<close>

theorem call_logs_appends_duplicate_counterexample:
  "cl_save_to_json (cl_new_entry (str ''f.wav'')) (Holds [cl_new_entry (str ''f.wav'')]) NoFault
     = (Inr (), Holds [cl_new_entry (str ''f.wav''), cl_new_entry (str ''f.wav'')])
   \<and> length (filter (\<lambda>x. cl_FileName x = str ''f.wav'')
        [cl_new_entry (str ''f.wav''), cl_new_entry (str ''f.wav'')]) = 2"
  by (simp add: cl_save_to_json_def load_db_def write_db_def cl_new_entry_def)

text \<open>
  Claim C3, as amended. \<open>save_to_json\<close> (in both modules) returns \<open>None\<close> in every
  case, whether or not it appended, and raises nothing: a failure of the read or of the
  write is caught inside, printed, and not reported to the caller. When the read
  fails, or the file cannot be opened for writing, the file is left as it was.
\<close>

theorem save_to_json_swallows_failures:
  "fst (save_to_json e jf fault) = Inr ()
   \<and> fst (cl_save_to_json c cjf fault) = Inr ()
   \<and> save_to_json e Broken fault = (Inr (), Broken)
   \<and> cl_save_to_json c Broken fault = (Inr (), Broken)
   \<and> save_to_json e jf OpenFails = (Inr (), jf)
   \<and> cl_save_to_json c cjf OpenFails = (Inr (), cjf)"
proof (intro conjI)
  show "fst (save_to_json e jf fault) = Inr ()" by (rule save_to_json_returns)
  show "fst (cl_save_to_json c cjf fault) = Inr ()" by (rule cl_save_to_json_returns)
  show "save_to_json e Broken fault = (Inr (), Broken)"
    by (simp add: save_to_json_def load_db_def)
  show "cl_save_to_json c Broken fault = (Inr (), Broken)"
    by (simp add: cl_save_to_json_def load_db_def)
  show "save_to_json e jf OpenFails = (Inr (), jf)"
    by (cases jf) (simp_all add: save_to_json_def load_db_def write_db_def)
  show "cl_save_to_json c cjf OpenFails = (Inr (), cjf)"
    by (cases cjf) (simp_all add: cl_save_to_json_def load_db_def write_db_def)
qed

text \<open>
  The claim as stated fails: on a file that cannot be read the call returns \<open>None\<close>
  exactly as a successful append does, so the caller sees no failure; and a dump that
  fails after the file was opened for writing does not leave the prior content.
\<close>

theorem failure_not_reported_counterexample:
  "load_db (Broken :: db_entry json_file) = Inl OSError
   \<and> save_to_json (new_entry (str ''f.wav'')) Broken NoFault = (Inr (), Broken)
   \<and> save_to_json (new_entry (str ''f.wav'')) Missing NoFault
        = (Inr (), Holds [new_entry (str ''f.wav'')])
   \<and> save_to_json (new_entry (str ''f.wav'')) (Holds [new_entry (str ''g.wav'')]) DumpFails
        = (Inr (), Broken)"
  by (simp add: save_to_json_def load_db_def write_db_def new_entry_def str_def)

end
